theory Spec2Isabelle
  imports Complex_Main "HOL-Library.Word" "HOL-Library.Log_Nat"
begin

section \<open>SmartWatch3D: the watch state and its per-frame updates\<close>

text \<open>
  The program keeps its whole state in global variables of \<^verbatim>\<open>Main.cpp\<close>. The record
  below holds the globals that the update functions, the input callbacks and the 2D watch
  screen read or write; every function of the source that mutates them becomes a function
  from the record to the updated record. \<open>cameraPos_y\<close> is the component
  \<^verbatim>\<open>cameraPos.y\<close>, \<open>windowShouldClose\<close> is the flag behind
  \<^verbatim>\<open>glfwSetWindowShouldClose\<close>, and \<open>lastTime\<close> is the local variable of
  \<^verbatim>\<open>main\<close> that the frame loop carries from one iteration to the next. OpenGL calls
  draw and change none of these variables; they are left out.

  Number representation. The C++ \<^verbatim>\<open>int\<close> fields are \<^typ>\<open>int\<close>: the code keeps them
  far from the 32-bit limits (clock fields below 60, battery between 0 and 100, screen
  index 0..2); in \<^verbatim>\<open>createDigitTexture\<close>, whose \<^verbatim>\<open>int\<close> values grow with the length of
  its argument, the 32-bit wrap-around is written out. The \<^verbatim>\<open>float\<close> and \<^verbatim>\<open>double\<close>
  fields are \<^typ>\<open>real\<close> and their arithmetic is exact, so rounding of IEEE-754 operations
  is outside the model of the update functions and of the hit tests; in the wrapping of
  the buildings, where the rounding decides whether the loops end, each \<^verbatim>\<open>float\<close>
  operation is rounded. A value of \<^verbatim>\<open>rand()\<close> is an argument of the function that calls
  it, a natural number as \<^verbatim>\<open>rand()\<close> never returns a negative value.
\<close>

record globals =
  screenWidth :: int
  screenHeight :: int
  currentScreen :: int
  hours :: int
  minutes :: int
  seconds :: int
  lastSecondTime :: real
  bpm :: real
  targetBpm :: real
  ekgOffset :: real
  ekgScale :: real
  isRunning :: bool
  batteryPercent :: int
  lastBatteryDrain :: real
  cameraBasePitch :: real
  watchViewMode :: bool
  mouseX :: real
  mouseY :: real
  lastMouseX :: real
  lastMouseY :: real
  firstMouse :: bool
  mouseClicked :: bool
  runTime :: real
  groundOffset :: real
  cameraBobOffset :: real
  depthTestEnabled :: bool
  faceCullingEnabled :: bool
  windowShouldClose :: bool
  cameraPitch :: real
  cameraPos_y :: real
  lastTime :: real

text \<open>The initialisers of the globals. The three clock fields come from
  \<^verbatim>\<open>localtime\<close> at start-up and are arguments here.\<close>

definition initialGlobals :: "int \<Rightarrow> int \<Rightarrow> int \<Rightarrow> globals" where
  "initialGlobals tm_hour tm_min tm_sec =
     \<lparr>screenWidth = 1920, screenHeight = 1080, currentScreen = 0,
      hours = tm_hour, minutes = tm_min, seconds = tm_sec, lastSecondTime = 0,
      bpm = 70, targetBpm = 70, ekgOffset = 0, ekgScale = 1, isRunning = False,
      batteryPercent = 100, lastBatteryDrain = 0,
      cameraBasePitch = 0, watchViewMode = False,
      mouseX = 0, mouseY = 0, lastMouseX = 0, lastMouseY = 0, firstMouse = True,
      mouseClicked = False,
      runTime = 0, groundOffset = 0, cameraBobOffset = 0,
      depthTestEnabled = True, faceCullingEnabled = True, windowShouldClose = False,
      cameraPitch = 0, cameraPos_y = 16 / 10, lastTime = 0\<rparr>"

definition GROUND_SEGMENT_LENGTH :: real where
  "GROUND_SEGMENT_LENGTH = 20"

definition NUM_GROUND_SEGMENTS :: int where
  "NUM_GROUND_SEGMENTS = 5"

definition TARGET_FRAME_TIME :: real where
  "TARGET_FRAME_TIME = 1 / 75"

subsection \<open>Update functions\<close>

text \<open>\<^verbatim>\<open>updateClock\<close>: one tick per call at most, when a second or more has passed since
  the last tick; the nested tests are the source's.\<close>

definition updateClock :: "real \<Rightarrow> globals \<Rightarrow> globals" where
  "updateClock currentTime g =
     (if currentTime - lastSecondTime g \<ge> 1 then
        let g = g\<lparr>lastSecondTime := currentTime\<rparr>;
            g = g\<lparr>seconds := seconds g + 1\<rparr>
        in if seconds g \<ge> 60 then
             let g = g\<lparr>seconds := 0\<rparr>;
                 g = g\<lparr>minutes := minutes g + 1\<rparr>
             in if minutes g \<ge> 60 then
                  let g = g\<lparr>minutes := 0\<rparr>;
                      g = g\<lparr>hours := hours g + 1\<rparr>
                  in if hours g \<ge> 24 then g\<lparr>hours := 0\<rparr> else g
                else g
           else g
      else g)"

text \<open>\<^verbatim>\<open>updateHeartRate\<close>. \<open>rnd\<close> is the value \<^verbatim>\<open>rand()\<close> returns; the source calls it in
  the resting branch only.\<close>

definition updateHeartRate :: "real \<Rightarrow> nat \<Rightarrow> globals \<Rightarrow> globals" where
  "updateHeartRate deltaTime rnd g =
     (let g = (if isRunning g
               then g\<lparr>targetBpm := min (targetBpm g + 30 * deltaTime) 220\<rparr>
               else g\<lparr>targetBpm := max (targetBpm g - 20 * deltaTime) (60 + real (rnd mod 20))\<rparr>);
          g = g\<lparr>bpm := bpm g + (targetBpm g - bpm g) * 2 * deltaTime\<rparr>;
          speed = bpm g / 60;
          g = g\<lparr>ekgOffset := ekgOffset g + speed * deltaTime * (1/2)\<rparr>;
          g = (if ekgOffset g > 1 then g\<lparr>ekgOffset := ekgOffset g - 1\<rparr> else g);
          targetScale = 60 / bpm g
      in g\<lparr>ekgScale := ekgScale g + (targetScale - ekgScale g) * 2 * deltaTime\<rparr>)"

text \<open>\<^verbatim>\<open>updateBattery\<close>.\<close>

definition updateBattery :: "real \<Rightarrow> globals \<Rightarrow> globals" where
  "updateBattery currentTime g =
     (if currentTime - lastBatteryDrain g \<ge> 10 \<and> batteryPercent g > 0
      then let g = g\<lparr>lastBatteryDrain := currentTime\<rparr>
           in g\<lparr>batteryPercent := batteryPercent g - 1\<rparr>
      else g)"

text \<open>\<^verbatim>\<open>updateRunning\<close>.\<close>

definition updateRunning :: "real \<Rightarrow> globals \<Rightarrow> globals" where
  "updateRunning deltaTime g =
     (if isRunning g \<and> currentScreen g = 1 then
        let g = g\<lparr>runTime := runTime g + deltaTime * 8\<rparr>;
            g = g\<lparr>cameraBobOffset := sin (runTime g) * (5/100)\<rparr>;
            g = g\<lparr>groundOffset := groundOffset g + deltaTime * 8\<rparr>
        in if groundOffset g > GROUND_SEGMENT_LENGTH
           then g\<lparr>groundOffset := groundOffset g - GROUND_SEGMENT_LENGTH\<rparr>
           else g
      else g\<lparr>cameraBobOffset := cameraBobOffset g * (9/10)\<rparr>)"

subsection \<open>Sequences of calls\<close>

text \<open>A sequence of \<^verbatim>\<open>updateHeartRate\<close> calls. Each element gives the arguments of one call
  and the value the global \<^verbatim>\<open>isRunning\<close> has when the call is made (the frame loop
  assigns it before the call).\<close>

fun heartRateCalls :: "(real \<times> bool \<times> nat) list \<Rightarrow> globals \<Rightarrow> globals" where
  "heartRateCalls [] g = g"
| "heartRateCalls ((deltaTime, running, rnd) # cs) g =
     heartRateCalls cs (updateHeartRate deltaTime rnd (g\<lparr>isRunning := running\<rparr>))"

text \<open>A sequence of \<^verbatim>\<open>updateBattery\<close> calls, one per value of \<^verbatim>\<open>currentTime\<close>.\<close>

fun batteryCalls :: "real list \<Rightarrow> globals \<Rightarrow> globals" where
  "batteryCalls [] g = g"
| "batteryCalls (t # ts) g = batteryCalls ts (updateBattery t g)"

text \<open>A sequence of \<^verbatim>\<open>updateClock\<close> calls.\<close>

fun clockCalls :: "real list \<Rightarrow> globals \<Rightarrow> globals" where
  "clockCalls [] g = g"
| "clockCalls (t # ts) g = clockCalls ts (updateClock t g)"

text \<open>The schedule of a loop that calls at a fixed period: \<open>n\<close> call times, the first
  one period after \<open>t\<close>.\<close>

fun frameTimes :: "real \<Rightarrow> real \<Rightarrow> nat \<Rightarrow> real list" where
  "frameTimes t period 0 = []"
| "frameTimes t period (Suc n) = (t + period) # frameTimes (t + period) period n"

subsection \<open>Input callbacks\<close>

text \<open>The events that \<^verbatim>\<open>glfwPollEvents\<close> hands to the three registered callbacks, with the
  arguments the callbacks read. The constants are those of GLFW's header.\<close>

datatype event =
    MouseButton int int
  | CursorPos real real
  | Key int int

definition GLFW_MOUSE_BUTTON_LEFT :: int where "GLFW_MOUSE_BUTTON_LEFT = 0"
definition GLFW_PRESS :: int where "GLFW_PRESS = 1"
definition GLFW_KEY_SPACE :: int where "GLFW_KEY_SPACE = 32"
definition GLFW_KEY_ESCAPE :: int where "GLFW_KEY_ESCAPE = 256"
definition GLFW_KEY_F1 :: int where "GLFW_KEY_F1 = 290"
definition GLFW_KEY_F2 :: int where "GLFW_KEY_F2 = 291"

definition mouse_button_callback :: "int \<Rightarrow> int \<Rightarrow> globals \<Rightarrow> globals" where
  "mouse_button_callback button action g =
     (if button = GLFW_MOUSE_BUTTON_LEFT \<and> action = GLFW_PRESS
      then g\<lparr>mouseClicked := True\<rparr> else g)"

definition clamp :: "real \<Rightarrow> real \<Rightarrow> real \<Rightarrow> real" where
  "clamp v lo hi = min (max v lo) hi"

definition cursor_position_callback :: "real \<Rightarrow> real \<Rightarrow> globals \<Rightarrow> globals" where
  "cursor_position_callback xpos ypos g =
     (let g = (if firstMouse g
               then g\<lparr>lastMouseX := xpos, lastMouseY := ypos, firstMouse := False\<rparr>
               else g);
          yoffset = lastMouseY g - ypos;
          g = g\<lparr>lastMouseX := xpos, lastMouseY := ypos\<rparr>;
          g = (if \<not> watchViewMode g then
                 let sensitivity = 1 / 10;
                     g = g\<lparr>cameraBasePitch := cameraBasePitch g + yoffset * sensitivity\<rparr>
                 in g\<lparr>cameraBasePitch := clamp (cameraBasePitch g) (- 45) 45\<rparr>
               else g)
      in g\<lparr>mouseX := xpos, mouseY := ypos\<rparr>)"

definition key_callback :: "int \<Rightarrow> int \<Rightarrow> globals \<Rightarrow> globals" where
  "key_callback key action g =
     (let g = (if key = GLFW_KEY_ESCAPE \<and> action = GLFW_PRESS
               then g\<lparr>windowShouldClose := True\<rparr> else g);
          g = (if key = GLFW_KEY_SPACE \<and> action = GLFW_PRESS
               then g\<lparr>watchViewMode := \<not> watchViewMode g\<rparr> else g);
          g = (if key = GLFW_KEY_F1 \<and> action = GLFW_PRESS
               then g\<lparr>depthTestEnabled := \<not> depthTestEnabled g\<rparr> else g)
      in if key = GLFW_KEY_F2 \<and> action = GLFW_PRESS
         then g\<lparr>faceCullingEnabled := \<not> faceCullingEnabled g\<rparr> else g)"

fun dispatch :: "event \<Rightarrow> globals \<Rightarrow> globals" where
  "dispatch (MouseButton button action) g = mouse_button_callback button action g"
| "dispatch (CursorPos xpos ypos) g = cursor_position_callback xpos ypos g"
| "dispatch (Key key action) g = key_callback key action g"

text \<open>\<^verbatim>\<open>glfwPollEvents\<close>: the callbacks run one after the other, in the order of the
  queue.\<close>

fun glfwPollEvents :: "event list \<Rightarrow> globals \<Rightarrow> globals" where
  "glfwPollEvents [] g = g"
| "glfwPollEvents (e # es) g = glfwPollEvents es (dispatch e g)"

subsection \<open>The 2D watch screen\<close>

definition isPointInRect :: "real \<Rightarrow> real \<Rightarrow> real \<Rightarrow> real \<Rightarrow> real \<Rightarrow> real \<Rightarrow> bool" where
  "isPointInRect px py rx ry rw rh \<longleftrightarrow>
     px \<ge> rx - rw \<and> px \<le> rx + rw \<and> py \<ge> ry - rh \<and> py \<le> ry + rh"

text \<open>The pointer in normalised device coordinates, as each screen computes it before its
  hit test. The source computes the two coordinates and the sides of the hot-rects in
  \<^verbatim>\<open>float\<close>; here they are exact, so that for a pointer on the very edge of a hot-rect
  the test of the model and the test of the program can differ.\<close>

definition normMouseX :: "globals \<Rightarrow> real" where
  "normMouseX g = (mouseX g / real_of_int (screenWidth g)) * 2 - 1"

definition normMouseY :: "globals \<Rightarrow> real" where
  "normMouseY g = - ((mouseY g / real_of_int (screenHeight g)) * 2 - 1)"

text \<open>The three screens. Of each \<^verbatim>\<open>draw...Screen\<close> function the model keeps the part
  after the drawing: the hit test on the arrows.\<close>

definition drawClockScreen :: "globals \<Rightarrow> globals" where
  "drawClockScreen g =
     (let arrowSize = 1 / 10; arrowX = 8 / 10
      in if watchViewMode g \<and> mouseClicked g then
           if isPointInRect (normMouseX g) (normMouseY g) arrowX 0 arrowSize arrowSize
           then g\<lparr>currentScreen := 1\<rparr> else g
         else g)"

definition drawHeartRateScreen :: "globals \<Rightarrow> globals" where
  "drawHeartRateScreen g =
     (let arrowSize = 1 / 10; leftArrowX = - (8 / 10); rightArrowX = 8 / 10
      in if watchViewMode g \<and> mouseClicked g then
           let g1 = (if isPointInRect (normMouseX g) (normMouseY g) leftArrowX 0 arrowSize arrowSize
                     then g\<lparr>currentScreen := 0\<rparr> else g)
           in if isPointInRect (normMouseX g) (normMouseY g) rightArrowX 0 arrowSize arrowSize
              then g1\<lparr>currentScreen := 2\<rparr> else g1
         else g)"

definition drawBatteryScreen :: "globals \<Rightarrow> globals" where
  "drawBatteryScreen g =
     (let arrowSize = 1 / 10; arrowX = - (8 / 10)
      in if watchViewMode g \<and> mouseClicked g then
           if isPointInRect (normMouseX g) (normMouseY g) arrowX 0 arrowSize arrowSize
           then g\<lparr>currentScreen := 1\<rparr> else g
         else g)"

text \<open>\<^verbatim>\<open>renderWatchScreen\<close>: the \<^verbatim>\<open>switch\<close> has no default case.\<close>

definition renderWatchScreen :: "globals \<Rightarrow> globals" where
  "renderWatchScreen g =
     (if currentScreen g = 0 then drawClockScreen g
      else if currentScreen g = 1 then drawHeartRateScreen g
      else if currentScreen g = 2 then drawBatteryScreen g
      else g)"

subsection \<open>The frame loop\<close>

text \<open>What one iteration of the loop in \<^verbatim>\<open>main\<close> reads from outside: the two readings of
  \<^verbatim>\<open>glfwGetTime\<close> (the second one is taken after the frame limiter has slept), the state of
  the D key, the value of \<^verbatim>\<open>rand()\<close> and the events delivered by \<^verbatim>\<open>glfwPollEvents\<close> at
  the end of the iteration.\<close>

record frameInput =
  timeAtStart :: real
  timeAfterSleep :: real
  keyD :: bool
  randValue :: nat
  polled :: "event list"

text \<open>The iteration up to and including \<^verbatim>\<open>mouseClicked = false\<close>.\<close>

definition frameBody :: "frameInput \<Rightarrow> globals \<Rightarrow> globals" where
  "frameBody inp g =
     (let currentTime = (if timeAtStart inp - lastTime g < TARGET_FRAME_TIME
                         then timeAfterSleep inp else timeAtStart inp);
          deltaTime = currentTime - lastTime g;
          g = g\<lparr>lastTime := currentTime\<rparr>;
          g = g\<lparr>isRunning := (keyD inp \<and> currentScreen g = 1)\<rparr>;
          g = updateClock currentTime g;
          g = updateHeartRate deltaTime (randValue inp) g;
          g = updateBattery currentTime g;
          g = updateRunning deltaTime g;
          g = g\<lparr>cameraPitch := cameraBasePitch g + cameraBobOffset g * 100\<rparr>;
          g = g\<lparr>cameraPos_y := 16 / 10 + cameraBobOffset g\<rparr>;
          g = renderWatchScreen g
      in g\<lparr>mouseClicked := False\<rparr>)"

definition frame :: "frameInput \<Rightarrow> globals \<Rightarrow> globals" where
  "frame inp g = glfwPollEvents (polled inp) (frameBody inp g)"

subsection \<open>Buildings\<close>

record vec3 =
  vec_x :: real
  vec_y :: real
  vec_z :: real

record Building =
  position :: vec3
  scale :: vec3
  color :: vec3

text \<open>
  The wrapping of a building's Z coordinate adds and subtracts in \<^verbatim>\<open>float\<close>, and whether its
  loops end depends on the rounding. \<open>float32\<close> is the rounding of a real number to the
  nearest number with a significand of 24 bits, ties to the even significand, as IEEE-754
  single precision does it; the limits of the exponent (overflow beyond \<open>2^128\<close>, gradual
  underflow below \<open>2^-126\<close>) are left out. \<open>binaryExponent a\<close> is the exponent \<open>e\<close> with
  \<open>2^e \<le> a < 2^(e+1)\<close> of a positive number, and \<open>roundEven\<close> rounds to the nearest
  integer, ties to even.
\<close>

definition roundEven :: "real \<Rightarrow> int" where
  "roundEven m =
     (let f = \<lfloor>m\<rfloor>
      in if m - of_int f < 1 / 2 then f
         else if m - of_int f > 1 / 2 then f + 1
         else if even f then f else f + 1)"

definition binaryExponent :: "real \<Rightarrow> int" where
  "binaryExponent a = (if 1 \<le> a then bitlen \<lfloor>a\<rfloor> - 1 else - bitlen (\<lceil>1 / a\<rceil> - 1))"

definition float32 :: "real \<Rightarrow> real" where
  "float32 v =
     (if v = 0 then 0
      else let ulp = 2 powi (binaryExponent \<bar>v\<bar> - 23)
           in of_int (roundEven (v / ulp)) * ulp)"

text \<open>The two wrapping loops of \<^verbatim>\<open>renderScene\<close>, each a recursive function on the
  running value of \<^verbatim>\<open>pos.z\<close>. A loop that does not end has the value \<open>None\<close>. The product
  \<^verbatim>\<open>NUM_GROUND_SEGMENTS * GROUND_SEGMENT_LENGTH\<close> is 100, which \<^verbatim>\<open>float\<close> holds exactly.\<close>

partial_function (option) wrapFar :: "real \<Rightarrow> real option" where
  "wrapFar z =
     (if z > 10 then wrapFar (float32 (z - real_of_int NUM_GROUND_SEGMENTS * GROUND_SEGMENT_LENGTH))
      else Some z)"

partial_function (option) wrapNear :: "real \<Rightarrow> real option" where
  "wrapNear z =
     (if z < - real_of_int NUM_GROUND_SEGMENTS * GROUND_SEGMENT_LENGTH
      then wrapNear (float32 (z + real_of_int NUM_GROUND_SEGMENTS * GROUND_SEGMENT_LENGTH))
      else Some z)"

text \<open>The position at which \<^verbatim>\<open>renderScene\<close> draws a building, if the loops end.\<close>

definition wrappedPosition :: "Building \<Rightarrow> real \<Rightarrow> vec3 option" where
  "wrappedPosition building offset =
     (let pos = position building;
          pos = pos\<lparr>vec_z := float32 (vec_z pos + offset)\<rparr>
      in case wrapFar (vec_z pos) of
           None \<Rightarrow> None
         | Some z1 \<Rightarrow>
             (case wrapNear z1 of
                None \<Rightarrow> None
              | Some z2 \<Rightarrow> Some (pos\<lparr>vec_z := z2\<rparr>)))"

subsection \<open>The digit texture\<close>

text \<open>
  \<^verbatim>\<open>createDigitTexture\<close> allocates an array of \<^verbatim>\<open>width * height * 4\<close> bytes and writes
  into it through raw indexing. The array is a list of bytes; a write to an index that is
  not in the array is the fault \<open>OutOfBounds\<close>, and an array of negative size is the fault
  \<open>BadArrayNewLength\<close> (the exception that \<^verbatim>\<open>new\<close> throws), so that a run of the function is
  either \<open>Inr\<close> of the finished pixel buffer or \<open>Inl\<close> of the fault.

  The \<^verbatim>\<open>int\<close> variables are 32-bit. \<open>wrap32\<close> is the two's-complement value of an
  integer in 32 bits; every \<^verbatim>\<open>int\<close> expression whose value depends on the length of the
  string is wrapped. Wrapping the value of a whole expression of sums, differences and
  products gives the same result as wrapping after each operation. (Signed overflow is
  undefined in C++; the wrapped value is what the usual compilers compute.) The expressions
  on \<open>height\<close>, which is always 50, stay small and are not wrapped, and so are the
  loop counters, which stay below their bounds.
\<close>

definition wrap32 :: "int \<Rightarrow> int" where
  "wrap32 v = (v + 2 ^ 31) mod 2 ^ 32 - 2 ^ 31"

datatype fault = OutOfBounds | BadArrayNewLength

type_synonym pixels = "8 word list"

definition store :: "int \<Rightarrow> 8 word \<Rightarrow> pixels \<Rightarrow> fault + pixels" where
  "store idx v data =
     (if 0 \<le> idx \<and> idx < int (length data) then Inr (data[nat idx := v]) else Inl OutOfBounds)"

definition andThen :: "fault + pixels \<Rightarrow> (pixels \<Rightarrow> fault + pixels) \<Rightarrow> fault + pixels" where
  "andThen r f = (case r of Inl e \<Rightarrow> Inl e | Inr data \<Rightarrow> f data)"

text \<open>A \<^verbatim>\<open>for\<close> loop over the values of its counter; it stops at the first fault.\<close>

primrec forEach :: "'a list \<Rightarrow> ('a \<Rightarrow> pixels \<Rightarrow> fault + pixels) \<Rightarrow> pixels \<Rightarrow> fault + pixels" where
  "forEach [] body data = Inr data"
| "forEach (i # is) body data = andThen (body i data) (forEach is body)"

definition charWidth :: int where "charWidth = 30"
definition charHeight :: int where "charHeight = 50"

text \<open>The lambda \<^verbatim>\<open>setPixel\<close>; \<open>width\<close> and \<open>height\<close> are the variables it captures.\<close>

definition setPixel :: "int \<Rightarrow> int \<Rightarrow> int \<Rightarrow> int \<Rightarrow> 8 word \<Rightarrow> 8 word \<Rightarrow> 8 word \<Rightarrow> pixels \<Rightarrow> fault + pixels" where
  "setPixel width height x y r g b data =
     (if x \<ge> 0 \<and> x < width \<and> y \<ge> 0 \<and> y < height then
        let idx = wrap32 ((y * width + x) * 4)
        in andThen (andThen (andThen (store idx r data) (store (wrap32 (idx + 1)) g))
                      (store (wrap32 (idx + 2)) b))
             (store (wrap32 (idx + 3)) 255)
      else Inr data)"

definition segments :: "bool list list" where
  "segments =
     [[True, True, True, False, True, True, True],
      [False, False, True, False, False, True, False],
      [True, False, True, True, True, False, True],
      [True, False, True, True, False, True, True],
      [False, True, True, True, False, True, False],
      [True, True, False, True, False, True, True],
      [True, True, False, True, True, True, True],
      [True, False, True, False, False, True, False],
      [True, True, True, True, True, True, True],
      [True, True, True, True, False, True, True],
      [False, False, False, False, False, False, False],
      [False, False, False, False, False, False, False]]"

text \<open>The lambda \<^verbatim>\<open>drawSegment\<close>. The integer divisions of the source have positive
  operands, where \<open>div\<close> and the division of C++ agree.\<close>

definition drawSegment :: "int \<Rightarrow> int \<Rightarrow> int \<Rightarrow> int \<Rightarrow> pixels \<Rightarrow> fault + pixels" where
  "drawSegment width height offsetX seg data =
     (let thick = 4; margin = 3; segW = charWidth - 2 * margin
      in if seg = 0 then
           forEach [0 .. thick - 1] (\<lambda>t. forEach [margin .. margin + segW - 1] (\<lambda>x.
             setPixel width height (wrap32 (offsetX + x)) (height - margin - t) 200 230 255)) data
         else if seg = 1 then
           forEach [0 .. thick - 1] (\<lambda>t. forEach [height div 2 + margin div 2 .. height - margin - 1] (\<lambda>y.
             setPixel width height (wrap32 (offsetX + margin + t)) y 200 230 255)) data
         else if seg = 2 then
           forEach [0 .. thick - 1] (\<lambda>t. forEach [height div 2 + margin div 2 .. height - margin - 1] (\<lambda>y.
             setPixel width height (wrap32 (offsetX + charWidth - margin - t)) y 200 230 255)) data
         else if seg = 3 then
           forEach [0 .. thick - 1] (\<lambda>t. forEach [margin .. margin + segW - 1] (\<lambda>x.
             setPixel width height (wrap32 (offsetX + x)) (height div 2 + t - thick div 2) 200 230 255)) data
         else if seg = 4 then
           forEach [0 .. thick - 1] (\<lambda>t. forEach [margin .. height div 2 - margin div 2 - 1] (\<lambda>y.
             setPixel width height (wrap32 (offsetX + margin + t)) y 200 230 255)) data
         else if seg = 5 then
           forEach [0 .. thick - 1] (\<lambda>t. forEach [margin .. height div 2 - margin div 2 - 1] (\<lambda>y.
             setPixel width height (wrap32 (offsetX + charWidth - margin - t)) y 200 230 255)) data
         else if seg = 6 then
           forEach [0 .. thick - 1] (\<lambda>t. forEach [margin .. margin + segW - 1] (\<lambda>x.
             setPixel width height (wrap32 (offsetX + x)) (margin + t) 200 230 255)) data
         else Inr data)"

text \<open>The lambda \<^verbatim>\<open>drawColon\<close>; \<^verbatim>\<open>-dotSize / 2\<close> is \<open>-2\<close>.\<close>

definition drawColon :: "int \<Rightarrow> int \<Rightarrow> int \<Rightarrow> pixels \<Rightarrow> fault + pixels" where
  "drawColon width height offsetX data =
     (let dotSize = 4; cx = wrap32 (offsetX + charWidth div 2)
      in forEach [- dotSize div 2 .. dotSize div 2] (\<lambda>dy. forEach [- dotSize div 2 .. dotSize div 2] (\<lambda>dx d.
           andThen (setPixel width height (wrap32 (cx + dx)) (height * 3 div 4 + dy) 200 230 255 d)
             (setPixel width height (wrap32 (cx + dx)) (height * 1 div 4 + dy) 200 230 255))) data)"

text \<open>The first loop of \<^verbatim>\<open>createDigitTexture\<close>: its counter \<open>i\<close> takes the values
  \<open>0, 4, 8, ...\<close> below \<open>nbytes\<close>, the value of \<^verbatim>\<open>width * height * 4\<close>, and each round
  clears four bytes.\<close>

definition clearBuffer :: "int \<Rightarrow> pixels \<Rightarrow> fault + pixels" where
  "clearBuffer nbytes data =
     forEach (map (\<lambda>k. 4 * k) [0 .. (nbytes - 1) div 4]) (\<lambda>i d.
       andThen (andThen (andThen (store i 0 d) (store (i + 1) 0)) (store (i + 2) 0))
         (store (i + 3) 0)) data"

text \<open>The body of the last loop of \<^verbatim>\<open>createDigitTexture\<close>, for the character at index
  \<open>i\<close>.\<close>

definition drawChar :: "string \<Rightarrow> int \<Rightarrow> int \<Rightarrow> int \<Rightarrow> pixels \<Rightarrow> fault + pixels" where
  "drawChar digitStr width height i data =
     (let c = digitStr ! nat i; offsetX = wrap32 (i * charWidth)
      in if c = CHR '':'' then drawColon width height offsetX data
         else if of_char c \<ge> (48 :: nat) \<and> of_char c \<le> (57 :: nat) then
           let digit = of_char c - (48 :: nat)
           in forEach [0 .. 6] (\<lambda>s d.
                if segments ! digit ! nat s then drawSegment width height offsetX s d
                else Inr d) data
         else Inr data)"

text \<open>\<^verbatim>\<open>createDigitTexture\<close>. The result is the pixel buffer that the function hands to
  \<^verbatim>\<open>glTexImage2D\<close> before it frees it. The fresh array is modelled with all bytes zero; the
  first loop overwrites each byte.\<close>

definition createDigitTexture :: "string \<Rightarrow> fault + pixels" where
  "createDigitTexture digitStr =
     (let len = wrap32 (int (length digitStr));
          width = wrap32 (charWidth * len);
          height = charHeight;
          nbytes = wrap32 (width * height * 4)
      in if nbytes < 0 then Inl BadArrayNewLength
         else andThen (clearBuffer nbytes (replicate (nat nbytes) 0))
                (forEach [0 .. len - 1] (drawChar digitStr width height)))"

subsection \<open>Auxiliary notions for the proofs\<close>

text \<open>The heart-rate values stay between the resting floor and the ceiling of the ramp.\<close>

definition hr_inv :: "globals \<Rightarrow> bool" where
  "hr_inv g \<longleftrightarrow> 60 \<le> targetBpm g \<and> targetBpm g \<le> 220 \<and> 60 \<le> bpm g \<and> bpm g \<le> 220
       \<and> 0 \<le> ekgOffset g \<and> ekgOffset g \<le> 1"

text \<open>The clock fields are within their ranges.\<close>

definition clockInRange :: "globals \<Rightarrow> bool" where
  "clockInRange g \<longleftrightarrow> 0 \<le> seconds g \<and> seconds g \<le> 59 \<and> 0 \<le> minutes g \<and> minutes g \<le> 59
       \<and> 0 \<le> hours g \<and> hours g \<le> 23"

text \<open>The time of day in seconds that the clock fields show.\<close>

definition secondOfDay :: "globals \<Rightarrow> int" where
  "secondOfDay g = hours g * 3600 + minutes g * 60 + seconds g"


text \<open>The pointer is on the right arrow, on the left arrow: the hit tests of the three
  screens.\<close>

definition onRightArrow :: "globals \<Rightarrow> bool" where
  "onRightArrow g \<longleftrightarrow> isPointInRect (normMouseX g) (normMouseY g) (8 / 10) 0 (1 / 10) (1 / 10)"

definition onLeftArrow :: "globals \<Rightarrow> bool" where
  "onLeftArrow g \<longleftrightarrow> isPointInRect (normMouseX g) (normMouseY g) (- (8 / 10)) 0 (1 / 10) (1 / 10)"

text \<open>
  The place of an arrow in window coordinates. An arrow icon spans a tenth of the window
  width, from the fraction \<open>lo\<close> to the fraction \<open>hi\<close> of it (0.85 to 0.95 for the right
  arrow, 0.05 to 0.15 for the left one), and the tenth of the window height around its
  middle. \<open>insideArrow\<close> holds for a pointer on the icon and \<open>outsideArrow\<close> for a pointer
  off it, each by at least the margin \<open>edgeMargin\<close> of the window size; in the band
  between the two, on the edge of the icon, the rounding of the \<^verbatim>\<open>float\<close> arithmetic of the
  hit test decides, and neither predicate holds.
\<close>

definition edgeMargin :: real where
  "edgeMargin = 1 / 2000000"

definition insideArrow :: "real \<Rightarrow> real \<Rightarrow> globals \<Rightarrow> bool" where
  "insideArrow lo hi g \<longleftrightarrow>
     0 < screenWidth g \<and> 0 < screenHeight g
     \<and> (lo + edgeMargin) * real_of_int (screenWidth g) \<le> mouseX g
     \<and> mouseX g \<le> (hi - edgeMargin) * real_of_int (screenWidth g)
     \<and> (45 / 100 + edgeMargin) * real_of_int (screenHeight g) \<le> mouseY g
     \<and> mouseY g \<le> (55 / 100 - edgeMargin) * real_of_int (screenHeight g)"

definition outsideArrow :: "real \<Rightarrow> real \<Rightarrow> globals \<Rightarrow> bool" where
  "outsideArrow lo hi g \<longleftrightarrow>
     0 < screenWidth g \<and> 0 < screenHeight g
     \<and> (mouseX g \<le> (lo - edgeMargin) * real_of_int (screenWidth g)
        \<or> (hi + edgeMargin) * real_of_int (screenWidth g) \<le> mouseX g
        \<or> mouseY g \<le> (45 / 100 - edgeMargin) * real_of_int (screenHeight g)
        \<or> (55 / 100 + edgeMargin) * real_of_int (screenHeight g) \<le> mouseY g)"

text \<open>The variables that the hit tests read.\<close>

definition pointerState :: "globals \<Rightarrow> int \<times> bool \<times> bool \<times> real \<times> real \<times> int \<times> int" where
  "pointerState g =
     (currentScreen g, watchViewMode g, mouseClicked g, mouseX g, mouseY g, screenWidth g, screenHeight g)"

text \<open>A press of the left mouse button, as the callback receives it.\<close>

definition leftClick :: event where
  "leftClick = MouseButton GLFW_MOUSE_BUTTON_LEFT GLFW_PRESS"

text \<open>A step on the pixel buffer that cannot fault and keeps the size of the buffer.\<close>

definition safeOn :: "nat \<Rightarrow> (pixels \<Rightarrow> fault + pixels) \<Rightarrow> bool" where
  "safeOn n f \<longleftrightarrow> (\<forall>data. length data = n \<longrightarrow> (\<exists>data'. f data = Inr data' \<and> length data' = n))"

section \<open>Heart rate\<close>

lemma rnd_le: "real (rnd mod 20) \<le> 19"
proof -
  have "rnd mod 20 < 20" by simp
  then show ?thesis by linarith
qed

lemma smoothing_between:
  fixes dt b t lo hi :: real
  assumes "0 \<le> dt" "dt \<le> 1/2" "lo \<le> b" "b \<le> hi" "lo \<le> t" "t \<le> hi"
  shows "lo \<le> b + (t - b) * 2 * dt \<and> b + (t - b) * 2 * dt \<le> hi"
proof -
  define a where "a = 2 * dt"
  have a: "0 \<le> a" "a \<le> 1" using assms by (simp_all add: a_def)
  have e: "b + (t - b) * a = (1 - a) * b + a * t" by (simp add: algebra_simps)
  have "(1 - a) * lo \<le> (1 - a) * b" "a * lo \<le> a * t" "(1 - a) * b \<le> (1 - a) * hi" "a * t \<le> a * hi"
    using assms a by (simp_all add: mult_left_mono)
  then have "(1 - a) * lo + a * lo \<le> (1 - a) * b + a * t" "(1 - a) * b + a * t \<le> (1 - a) * hi + a * hi"
    by linarith+
  then have "lo \<le> (1 - a) * b + a * t \<and> (1 - a) * b + a * t \<le> hi"
    by (simp add: algebra_simps)
  then show ?thesis by (simp add: a_def algebra_simps)
qed

lemma updateHeartRate_fields:
  "targetBpm (updateHeartRate dt rnd g) =
     (if isRunning g then min (targetBpm g + 30 * dt) 220
      else max (targetBpm g - 20 * dt) (60 + real (rnd mod 20)))"
  "bpm (updateHeartRate dt rnd g) =
     bpm g + (targetBpm (updateHeartRate dt rnd g) - bpm g) * 2 * dt"
  "ekgOffset (updateHeartRate dt rnd g) =
     (let e = ekgOffset g + bpm (updateHeartRate dt rnd g) / 60 * dt * (1/2)
      in if e > 1 then e - 1 else e)"
  by (simp_all add: updateHeartRate_def Let_def)

lemma hr_inv_step:
  assumes "hr_inv g" "0 \<le> dt" "dt \<le> 1/2"
  shows "hr_inv (updateHeartRate dt rnd g)"
proof -
  let ?g = "updateHeartRate dt rnd g"
  have t: "60 \<le> targetBpm ?g" "targetBpm ?g \<le> 220"
    using assms rnd_le[of rnd] by (auto simp: updateHeartRate_fields(1) hr_inv_def)
  have b: "60 \<le> bpm ?g \<and> bpm ?g \<le> 220"
    using smoothing_between[of dt 60 "bpm g" 220 "targetBpm ?g"] assms t
    unfolding updateHeartRate_fields(2) hr_inv_def by blast
  have "bpm ?g * dt \<le> 220 * (1/2)"
    using b assms(2,3) by (intro mult_mono) simp_all
  moreover have "0 \<le> bpm ?g * dt"
    using b assms(2) by simp
  ultimately
  have i: "0 \<le> bpm ?g / 60 * dt * (1/2)" "bpm ?g / 60 * dt * (1/2) \<le> 1"
    by simp_all
  have "0 \<le> ekgOffset ?g \<and> ekgOffset ?g \<le> 1"
    using i assms(1) by (auto simp: updateHeartRate_fields(3) hr_inv_def Let_def)
  with t b show ?thesis by (simp add: hr_inv_def)
qed


lemma heartRateCalls_append:
  "heartRateCalls (cs @ ds) g = heartRateCalls ds (heartRateCalls cs g)"
  by (induction cs arbitrary: g) auto

lemma hr_inv_calls:
  assumes "hr_inv g" "\<forall>(dt, running, rnd) \<in> set cs. 0 \<le> dt \<and> dt \<le> 1/2"
  shows "hr_inv (heartRateCalls cs g)"
  using assms
proof (induction cs arbitrary: g)
  case Nil
  then show ?case by simp
next
  case (Cons c cs)
  obtain dt running rnd where c: "c = (dt, running, rnd)" by (cases c)
  have "hr_inv (g\<lparr>isRunning := running\<rparr>)" using Cons.prems(1) by (simp add: hr_inv_def)
  then have "hr_inv (updateHeartRate dt rnd (g\<lparr>isRunning := running\<rparr>))"
    using Cons.prems(2) c by (intro hr_inv_step) auto
  then show ?case using Cons.IH Cons.prems(2) c by simp
qed

lemma targetBpm_calls_le:
  assumes "targetBpm g \<le> 220" "\<forall>(dt, running, rnd) \<in> set cs. 0 \<le> dt"
  shows "targetBpm (heartRateCalls cs g) \<le> 220"
  using assms
proof (induction cs arbitrary: g)
  case Nil
  then show ?case by simp
next
  case (Cons c cs)
  obtain dt running rnd where c: "c = (dt, running, rnd)" by (cases c)
  have "targetBpm (updateHeartRate dt rnd (g\<lparr>isRunning := running\<rparr>)) \<le> 220"
    using Cons.prems c rnd_le[of rnd] by (auto simp: updateHeartRate_fields(1))
  then show ?case using Cons.IH Cons.prems(2) c by simp
qed

lemma heartRateCalls_replicate_Suc:
  "heartRateCalls (replicate (Suc n) (dt, running, rnd)) g =
     updateHeartRate dt rnd ((heartRateCalls (replicate n (dt, running, rnd)) g)\<lparr>isRunning := running\<rparr>)"
proof -
  have "replicate (Suc n) (dt, running, rnd) = replicate n (dt, running, rnd) @ [(dt, running, rnd)]"
    by (simp add: replicate_append_same)
  then show ?thesis
    by (simp only: heartRateCalls_append heartRateCalls.simps)
qed

lemma running_step:
  assumes "targetBpm h = 70 + real n / 2" "n < 300"
  shows "targetBpm (updateHeartRate (1/60) rnd (h\<lparr>isRunning := True\<rparr>)) = 70 + real (Suc n) / 2"
    and "bpm (updateHeartRate (1/60) rnd (h\<lparr>isRunning := True\<rparr>))
           = bpm h + (70 + real (Suc n) / 2 - bpm h) / 30"
proof -
  have n: "real n + 1 \<le> 300" using assms(2) by linarith
  show t: "targetBpm (updateHeartRate (1/60) rnd (h\<lparr>isRunning := True\<rparr>)) = 70 + real (Suc n) / 2"
    using assms(1) n by (simp add: updateHeartRate_fields(1) add_divide_distrib)
  show "bpm (updateHeartRate (1/60) rnd (h\<lparr>isRunning := True\<rparr>))
           = bpm h + (70 + real (Suc n) / 2 - bpm h) / 30"
    unfolding updateHeartRate_fields(2) t by simp
qed

lemma approach_lt:
  fixes b t :: real
  assumes "b < t"
  shows "b < b + (t - b) / 30" and "b + (t - b) / 30 < t"
proof -
  have "0 < (t - b) / 30" "(t - b) / 30 < t - b"
    using assms by simp_all
  then show "b < b + (t - b) / 30" and "b + (t - b) / 30 < t"
    by linarith+
qed

lemma running_ramp:
  assumes "bpm g = 70" "targetBpm g = 70" "n \<le> 300"
  shows "targetBpm (heartRateCalls (replicate n (1/60, True, rnd)) g) = 70 + real n / 2
       \<and> bpm (heartRateCalls (replicate n (1/60, True, rnd)) g)
           \<le> targetBpm (heartRateCalls (replicate n (1/60, True, rnd)) g)"
  using assms(3)
proof (induction n)
  case 0
  then show ?case using assms(1,2) by simp
next
  case (Suc n)
  let ?h = "heartRateCalls (replicate n (1/60, True, rnd)) g"
  have ih: "targetBpm ?h = 70 + real n / 2" "bpm ?h \<le> targetBpm ?h"
    using Suc by simp_all
  have n: "n < 300" using Suc.prems by simp
  show ?case
  proof -
    have "bpm ?h < 70 + real (Suc n) / 2"
      using ih by (simp add: add_divide_distrib)
    from approach_lt(2)[OF this] show ?thesis
      unfolding heartRateCalls_replicate_Suc running_step[OF ih(1) n] by simp
  qed
qed

lemma running_bpm_step:
  assumes "bpm g = 70" "targetBpm g = 70" "n < 300"
  shows "bpm (heartRateCalls (replicate n (1/60, True, rnd)) g)
           < bpm (heartRateCalls (replicate (Suc n) (1/60, True, rnd)) g)
       \<and> bpm (heartRateCalls (replicate (Suc n) (1/60, True, rnd)) g)
           < targetBpm (heartRateCalls (replicate (Suc n) (1/60, True, rnd)) g)"
proof -
  let ?h = "heartRateCalls (replicate n (1/60, True, rnd)) g"
  have ih: "targetBpm ?h = 70 + real n / 2" "bpm ?h \<le> targetBpm ?h"
    using running_ramp[OF assms(1,2), of n rnd] assms(3) by simp_all
  show ?thesis
  proof -
    have "bpm ?h < 70 + real (Suc n) / 2"
      using ih by (simp add: add_divide_distrib)
    from approach_lt[OF this] show ?thesis
      unfolding heartRateCalls_replicate_Suc running_step[OF ih(1) assms(3)] by simp
  qed
qed

text \<open>
  Claim C10. For every finite sequence of \<^verbatim>\<open>updateHeartRate\<close> calls with nonnegative
  \<^verbatim>\<open>deltaTime\<close> and arbitrary values of \<^verbatim>\<open>isRunning\<close> (and of \<^verbatim>\<open>rand()\<close>), starting from
  \<^verbatim>\<open>targetBpm = 70\<close>, \<^verbatim>\<open>targetBpm\<close> is at most 220 after each call: after the first
  \<open>n\<close> calls, for every \<open>n\<close> up to the length of the sequence.
\<close>

theorem targetBpm_never_exceeds_220:
  assumes "targetBpm g = 70"
    and "\<forall>(deltaTime, running, rnd) \<in> set cs. 0 \<le> deltaTime"
    and "n \<le> length cs"
  shows "targetBpm (heartRateCalls (take n cs) g) \<le> 220"
proof -
  have "\<forall>(deltaTime, running, rnd) \<in> set (take n cs). 0 \<le> deltaTime"
    using assms(2) by (meson in_set_takeD)
  then show ?thesis
    using assms(1) by (intro targetBpm_calls_le) simp_all
qed

text \<open>The theorem at the start-up state and a sequence of two calls.\<close>

theorem targetBpm_never_exceeds_220_witness:
  "targetBpm (initialGlobals 9 30 0) = 70 \<and> (0::real) \<le> 1/60 \<and> (0::real) \<le> 4
   \<and> targetBpm (heartRateCalls (take 2 [(1/60, True, 11), (4, False, 7)]) (initialGlobals 9 30 0)) \<le> 220"
  using targetBpm_never_exceeds_220 [of "initialGlobals 9 30 0" "[(1/60, True, 11), (4, False, 7)]" 2]
  by (simp add: initialGlobals_def)

subsection \<open>The EKG offset\<close>

text \<open>
  Claim C1 says that \<^verbatim>\<open>ekgOffset\<close> lies in the half-open interval \<open>[0,1)\<close> after each
  call. The wrap-around of \<^verbatim>\<open>updateHeartRate\<close> tests \<^verbatim>\<open>ekgOffset > 1.0f\<close>, so the value 1
  itself is kept: four resting calls with \<^verbatim>\<open>deltaTime = 0.5\<close> in which \<^verbatim>\<open>rand() % 20\<close> is 0
  bring \<^verbatim>\<open>bpm\<close> to 60 and advance the offset by a quarter each, to exactly 1.
\<close>

theorem ekgOffset_reaches_one:
  "ekgOffset (initialGlobals 9 30 0) = 0 \<and> (0::real) \<le> 1/2
   \<and> \<not> ekgOffset (heartRateCalls [(1/2, False, 0), (1/2, False, 0), (1/2, False, 0), (1/2, False, 0)]
          (initialGlobals 9 30 0)) < 1"
  by (simp add: initialGlobals_def updateHeartRate_def Let_def)

text \<open>The value after these four calls, and after one call with a long frame time: the
  function subtracts 1 once per call, whatever the size of the step.\<close>

lemma ekgOffset_value_after_four_calls:
  "ekgOffset (heartRateCalls [(1/2, False, 0), (1/2, False, 0), (1/2, False, 0), (1/2, False, 0)]
          (initialGlobals 9 30 0)) = 1"
  by (simp add: initialGlobals_def updateHeartRate_def Let_def)

lemma ekgOffset_after_long_frame:
  "ekgOffset (heartRateCalls [(4, False, 10)] (initialGlobals 9 30 0)) = 4 / 3"
  by (simp add: initialGlobals_def updateHeartRate_def Let_def)

text \<open>
  Claim C1, amended. For every finite sequence of \<^verbatim>\<open>updateHeartRate\<close> calls whose
  \<^verbatim>\<open>deltaTime\<close> is between 0 and 1/2, with arbitrary values of \<^verbatim>\<open>isRunning\<close> and of
  \<^verbatim>\<open>rand()\<close>, starting from the initial \<^verbatim>\<open>bpm = targetBpm = 70\<close> and \<^verbatim>\<open>ekgOffset = 0\<close>, the
  value of \<^verbatim>\<open>ekgOffset\<close> after each call lies in the closed interval \<open>[0,1]\<close>.
\<close>

theorem ekgOffset_in_closed_unit_interval:
  assumes "bpm g = 70" and "targetBpm g = 70" and "ekgOffset g = 0"
    and "\<forall>(deltaTime, running, rnd) \<in> set cs. 0 \<le> deltaTime \<and> deltaTime \<le> 1/2"
    and "n \<le> length cs"
  shows "0 \<le> ekgOffset (heartRateCalls (take n cs) g) \<and> ekgOffset (heartRateCalls (take n cs) g) \<le> 1"
proof -
  have "hr_inv g"
    using assms(1-3) by (simp add: hr_inv_def)
  moreover have "\<forall>(deltaTime, running, rnd) \<in> set (take n cs). 0 \<le> deltaTime \<and> deltaTime \<le> 1/2"
    using assms(4) by (meson in_set_takeD)
  ultimately have "hr_inv (heartRateCalls (take n cs) g)"
    by (rule hr_inv_calls)
  then show ?thesis by (simp add: hr_inv_def)
qed

text \<open>The theorem at the start-up state and a sequence of two calls.\<close>

theorem ekgOffset_in_closed_unit_interval_witness:
  "bpm (initialGlobals 9 30 0) = 70 \<and> targetBpm (initialGlobals 9 30 0) = 70 \<and> ekgOffset (initialGlobals 9 30 0) = 0
   \<and> 0 \<le> ekgOffset (heartRateCalls (take 2 [(1/75, True, 3), (1/2, False, 5)]) (initialGlobals 9 30 0))
   \<and> ekgOffset (heartRateCalls (take 2 [(1/75, True, 3), (1/2, False, 5)]) (initialGlobals 9 30 0)) \<le> 1"
  using ekgOffset_in_closed_unit_interval [of "initialGlobals 9 30 0" "[(1/75, True, 3), (1/2, False, 5)]" 2]
  by (simp add: initialGlobals_def)

subsection \<open>Three seconds of running\<close>

text \<open>
  Claim C8. Starting from \<^verbatim>\<open>bpm = targetBpm = 70\<close>, 180 calls of \<^verbatim>\<open>updateHeartRate\<close> with
  \<^verbatim>\<open>isRunning\<close> true and \<^verbatim>\<open>deltaTime = 1/60\<close> give \<^verbatim>\<open>targetBpm = min(70+90, 220) = 160\<close>;
  the displayed \<^verbatim>\<open>bpm\<close> grows strictly with each of the 180 calls and is still below 160
  after the last one.
\<close>

theorem running_three_seconds:
  assumes "bpm g = 70" and "targetBpm g = 70"
  shows "targetBpm (heartRateCalls (replicate 180 (1/60, True, rnd)) g) = min (70 + 90) 220
       \<and> targetBpm (heartRateCalls (replicate 180 (1/60, True, rnd)) g) = 160
       \<and> (\<forall>n<180. bpm (heartRateCalls (replicate n (1/60, True, rnd)) g)
                    < bpm (heartRateCalls (replicate (Suc n) (1/60, True, rnd)) g))
       \<and> bpm (heartRateCalls (replicate 180 (1/60, True, rnd)) g) < 160"
proof -
  have t: "targetBpm (heartRateCalls (replicate 180 (1/60, True, rnd)) g) = 160"
    using running_ramp[OF assms, of 180 rnd] by simp
  have "bpm (heartRateCalls (replicate (Suc 179) (1/60, True, rnd)) g)
          < targetBpm (heartRateCalls (replicate (Suc 179) (1/60, True, rnd)) g)"
    using running_bpm_step[OF assms, of 179 rnd] by simp
  then have b: "bpm (heartRateCalls (replicate 180 (1/60, True, rnd)) g) < 160"
    using t by simp
  have "\<forall>n<180. bpm (heartRateCalls (replicate n (1/60, True, rnd)) g)
                    < bpm (heartRateCalls (replicate (Suc n) (1/60, True, rnd)) g)"
    using running_bpm_step[OF assms, of _ rnd] by simp
  with t b show ?thesis by simp
qed

text \<open>The theorem at the start-up state; the first call raises \<^verbatim>\<open>bpm\<close>.\<close>

theorem running_three_seconds_witness:
  "bpm (initialGlobals 9 30 0) = 70 \<and> targetBpm (initialGlobals 9 30 0) = 70
   \<and> targetBpm (heartRateCalls (replicate 180 (1/60, True, 0)) (initialGlobals 9 30 0)) = 160
   \<and> bpm (heartRateCalls (replicate 0 (1/60, True, 0)) (initialGlobals 9 30 0))
       < bpm (heartRateCalls (replicate (Suc 0) (1/60, True, 0)) (initialGlobals 9 30 0))
   \<and> bpm (heartRateCalls (replicate 180 (1/60, True, 0)) (initialGlobals 9 30 0)) < 160"
proof -
  have h: "bpm (initialGlobals 9 30 0) = 70" "targetBpm (initialGlobals 9 30 0) = 70"
    by (simp_all add: initialGlobals_def)
  have "(0::nat) < 180" by simp
  with running_three_seconds [OF h, of 0] h show ?thesis
    by blast
qed

section \<open>Battery\<close>


lemma batteryCalls_append:
  "batteryCalls (ts @ us) g = batteryCalls us (batteryCalls ts g)"
  by (induction ts arbitrary: g) auto

lemma batteryCalls_idle:
  assumes "\<forall>t \<in> set ts. t - lastBatteryDrain g < 10"
  shows "batteryCalls ts g = g"
  using assms by (induction ts) (auto simp: updateBattery_def)

lemma batteryCalls_empty:
  assumes "batteryPercent g \<le> 0"
  shows "batteryCalls ts g = g"
  using assms by (induction ts) (auto simp: updateBattery_def)

lemma frameTimes_add:
  "frameTimes t p (m + n) = frameTimes t p m @ frameTimes (t + real m * p) p n"
  by (induction m arbitrary: t) (auto simp: algebra_simps)

lemma frameTimes_mem:
  assumes "x \<in> set (frameTimes t p n)"
  shows "\<exists>i. 1 \<le> i \<and> i \<le> n \<and> x = t + real i * p"
  using assms
proof (induction n arbitrary: t)
  case 0
  then show ?case by simp
next
  case (Suc n)
  show ?case
  proof (cases "x = t + p")
    case True
    then have "1 \<le> (1::nat) \<and> 1 \<le> Suc n \<and> x = t + real 1 * p" by simp
    then show ?thesis by blast
  next
    case False
    then have "x \<in> set (frameTimes (t + p) p n)" using Suc.prems by simp
    from Suc.IH[OF this] obtain i where i: "1 \<le> i" "i \<le> n" "x = t + p + real i * p" by blast
    then have "1 \<le> Suc i \<and> Suc i \<le> Suc n \<and> x = t + real (Suc i) * p"
      by (simp add: algebra_simps)
    then show ?thesis by blast
  qed
qed

lemma battery_one_period:
  assumes "0 < k" and "0 < batteryPercent g"
  shows "batteryCalls (frameTimes (lastBatteryDrain g) (10 / real k) k) g =
           g\<lparr>lastBatteryDrain := lastBatteryDrain g + 10, batteryPercent := batteryPercent g - 1\<rparr>"
proof -
  obtain k' where k: "k = Suc k'" using assms(1) by (cases k) auto
  define p where "p = 10 / real k"
  let ?L = "lastBatteryDrain g"
  have kp: "real k * p = 10" using assms(1) by (simp add: p_def)
  have split: "frameTimes ?L p k = frameTimes ?L p k' @ [?L + real k' * p + p]"
    using frameTimes_add[of ?L p k' 1] k by simp
  have idle: "\<forall>t \<in> set (frameTimes ?L p k'). t - ?L < 10"
  proof
    fix t assume "t \<in> set (frameTimes ?L p k')"
    then obtain i where i: "i \<le> k'" "t = ?L + real i * p"
      using frameTimes_mem by blast
    have "0 < p" using assms(1) by (simp add: p_def)
    moreover have "real i < real k" using i(1) k by simp
    ultimately have "real i * p < real k * p" by simp
    then show "t - ?L < 10" using i(2) kp by simp
  qed
  have "real k' * p + p = real k * p" unfolding k by (simp add: distrib_right)
  then have last: "?L + real k' * p + p = ?L + 10" using kp by simp
  have "batteryCalls (frameTimes ?L p k) g = updateBattery (?L + 10) g"
    unfolding split batteryCalls_append batteryCalls_idle[OF idle] last by simp
  then show ?thesis
    unfolding p_def using assms(2) by (simp add: updateBattery_def)
qed

lemma battery_periods:
  assumes "0 < k" and "int j \<le> batteryPercent g"
  shows "batteryCalls (frameTimes (lastBatteryDrain g) (10 / real k) (j * k)) g =
           g\<lparr>lastBatteryDrain := lastBatteryDrain g + 10 * real j, batteryPercent := batteryPercent g - int j\<rparr>"
  using assms(2)
proof (induction j)
  case 0
  then show ?case by simp
next
  case (Suc j)
  let ?L = "lastBatteryDrain g" and ?p = "10 / real k"
  let ?g = "g\<lparr>lastBatteryDrain := ?L + 10 * real j, batteryPercent := batteryPercent g - int j\<rparr>"
  have ih: "batteryCalls (frameTimes ?L ?p (j * k)) g = ?g"
    using Suc by simp
  have t: "?L + real (j * k) * ?p = lastBatteryDrain ?g"
    using assms(1) by simp
  have pos: "0 < batteryPercent ?g" using Suc.prems by simp
  have "batteryCalls (frameTimes ?L ?p (Suc j * k)) g
          = batteryCalls (frameTimes (lastBatteryDrain ?g) ?p k) ?g"
    using frameTimes_add[of ?L ?p "j * k" k] ih t
    by (simp add: batteryCalls_append add.commute)
  also have "\<dots> = ?g\<lparr>lastBatteryDrain := lastBatteryDrain ?g + 10, batteryPercent := batteryPercent ?g - 1\<rparr>"
    by (rule battery_one_period[OF assms(1) pos])
  finally show ?case by (simp add: algebra_simps)
qed

lemma battery_uniform_frames:
  assumes "0 < k" and "0 \<le> batteryPercent g"
  shows "batteryPercent (batteryCalls (frameTimes (lastBatteryDrain g) (10 / real k) (j * k)) g)
           = max (batteryPercent g - int j) 0"
proof (cases "int j \<le> batteryPercent g")
  case True
  then show ?thesis using battery_periods[OF assms(1) True] by simp
next
  case False
  define b where "b = nat (batteryPercent g)"
  have b: "int b = batteryPercent g" "b \<le> j" using assms(2) False by (simp_all add: b_def)
  let ?L = "lastBatteryDrain g" and ?p = "10 / real k"
  have "j * k = (b + (j - b)) * k" using b(2) by simp
  also have "\<dots> = b * k + (j - b) * k" by (rule add_mult_distrib)
  finally have "frameTimes ?L ?p (j * k) = frameTimes ?L ?p (b * k) @ frameTimes (?L + real (b * k) * ?p) ?p ((j - b) * k)"
    by (simp only: frameTimes_add)
  moreover have "batteryPercent (batteryCalls (frameTimes ?L ?p (b * k)) g) = 0"
    using battery_periods[OF assms(1), of b g] b(1) by simp
  ultimately have "batteryPercent (batteryCalls (frameTimes ?L ?p (j * k)) g) = 0"
    by (simp add: batteryCalls_append batteryCalls_empty)
  then show ?thesis using False by simp
qed

subsection \<open>1000 seconds of battery drain\<close>

text \<open>
  Claim C2 says that a battery at 100 is at 90 after 1000 seconds of frames. At the program's
  own frame period \<open>TARGET_FRAME_TIME\<close> (75 frames a second, 750 frames in 10 seconds) the
  1000 seconds are 75000 calls of \<^verbatim>\<open>updateBattery\<close>; every 750th call lowers the battery,
  100 times in all, and the battery is at 0.
\<close>

theorem battery_after_1000_seconds_at_75_fps:
  "batteryPercent (initialGlobals 9 30 0) = 100
   \<and> real 75000 * TARGET_FRAME_TIME = 1000
   \<and> batteryPercent (batteryCalls (frameTimes (lastBatteryDrain (initialGlobals 9 30 0)) TARGET_FRAME_TIME 75000)
        (initialGlobals 9 30 0)) = 0
   \<and> batteryPercent (batteryCalls (frameTimes (lastBatteryDrain (initialGlobals 9 30 0)) TARGET_FRAME_TIME 75000)
        (initialGlobals 9 30 0)) \<noteq> 90"
proof -
  have p: "TARGET_FRAME_TIME = 10 / real 750" by (simp add: TARGET_FRAME_TIME_def)
  have b: "batteryPercent (initialGlobals 9 30 0) = 100" by (simp add: initialGlobals_def)
  have "batteryPercent (batteryCalls (frameTimes (lastBatteryDrain (initialGlobals 9 30 0)) (10 / real 750) (100 * 750))
        (initialGlobals 9 30 0)) = max (batteryPercent (initialGlobals 9 30 0) - int 100) 0"
    by (rule battery_uniform_frames) (simp_all add: b)
  then show ?thesis unfolding p using b by simp
qed

text \<open>
  Claim C2, amended. If \<^verbatim>\<open>batteryPercent\<close> starts at 100 and \<^verbatim>\<open>updateBattery\<close> is called every
  frame, the frames evenly spaced with a whole number \<open>k\<close> of frames in 10 seconds and the
  drain timer never reset from outside, then after \<open>10 * j\<close> seconds (\<open>j * k\<close> frames)
  \<^verbatim>\<open>batteryPercent\<close> equals \<open>100 - j\<close>, with floor 0: it is 90 after 100 seconds and 0 after
  1000 seconds.
\<close>

theorem battery_evenly_spaced_frames:
  assumes "batteryPercent g = 100" and "0 < k"
  shows "batteryPercent (batteryCalls (frameTimes (lastBatteryDrain g) (10 / real k) (j * k)) g)
           = max (100 - int j) 0"
  using battery_uniform_frames[OF assms(2), of g j] assms(1) by simp

text \<open>The theorem at 75 frames a second, after 1000 seconds and after 100 seconds.\<close>

theorem battery_evenly_spaced_frames_witness:
  "batteryPercent (initialGlobals 9 30 0) = 100 \<and> (0::nat) < 750
   \<and> batteryPercent (batteryCalls (frameTimes (lastBatteryDrain (initialGlobals 9 30 0)) (10 / real 750) (100 * 750))
        (initialGlobals 9 30 0)) = 0
   \<and> batteryPercent (batteryCalls (frameTimes (lastBatteryDrain (initialGlobals 9 30 0)) (10 / real 750) (10 * 750))
        (initialGlobals 9 30 0)) = 90"
proof -
  have b: "batteryPercent (initialGlobals 9 30 0) = 100" by (simp add: initialGlobals_def)
  have k: "(0::nat) < 750" by simp
  show ?thesis
    using battery_evenly_spaced_frames[OF b k, of 100] battery_evenly_spaced_frames[OF b k, of 10] b
    by simp
qed

subsection \<open>Monotonicity and rate of the drain\<close>








section \<open>Clock\<close>

lemma clockCalls_append:
  "clockCalls (ts @ us) g = clockCalls us (clockCalls ts g)"
  by (induction ts arbitrary: g) auto

lemma updateClock_idle:
  assumes "\<not> currentTime - lastSecondTime g \<ge> 1"
  shows "updateClock currentTime g = g"
  using assms by (simp add: updateClock_def)

lemma updateClock_tick:
  assumes "currentTime - lastSecondTime g \<ge> 1" and "clockInRange g"
  shows "seconds (updateClock currentTime g) = (seconds g + 1) mod 60"
    and "minutes (updateClock currentTime g) = (if seconds g = 59 then (minutes g + 1) mod 60 else minutes g)"
    and "hours (updateClock currentTime g)
           = (if seconds g = 59 \<and> minutes g = 59 then (hours g + 1) mod 24 else hours g)"
    and "lastSecondTime (updateClock currentTime g) = currentTime"
  using assms by (auto simp: updateClock_def clockInRange_def Let_def)

lemma updateClock_inRange:
  assumes "clockInRange g"
  shows "clockInRange (updateClock currentTime g)"
proof (cases "currentTime - lastSecondTime g \<ge> 1")
  case True
  have "0 \<le> (seconds g + 1) mod 60" "(seconds g + 1) mod 60 \<le> 59"
       "0 \<le> (minutes g + 1) mod 60" "(minutes g + 1) mod 60 \<le> 59"
       "0 \<le> (hours g + 1) mod 24" "(hours g + 1) mod 24 \<le> 23"
    by simp_all
  then show ?thesis
    using assms unfolding clockInRange_def updateClock_tick[OF True assms] by simp
next
  case False
  then show ?thesis using assms by (simp add: updateClock_idle)
qed

lemma clockCalls_inRange:
  assumes "clockInRange g"
  shows "clockInRange (clockCalls ts g)"
  using assms by (induction ts arbitrary: g) (auto intro: updateClock_inRange)

lemma updateClock_secondOfDay:
  assumes "currentTime - lastSecondTime g \<ge> 1" and "clockInRange g"
  shows "secondOfDay (updateClock currentTime g) = (secondOfDay g + 1) mod 86400"
proof -
  consider (a) "seconds g < 59"
    | (b) "seconds g = 59" "minutes g < 59"
    | (c) "seconds g = 59" "minutes g = 59" "hours g < 23"
    | (d) "seconds g = 59" "minutes g = 59" "hours g = 23"
    using assms(2) unfolding clockInRange_def by linarith
  then show ?thesis
  proof cases
    case a
    then show ?thesis
      using assms by (simp add: updateClock_def clockInRange_def secondOfDay_def)
  next
    case b
    then show ?thesis
      using assms by (simp add: updateClock_def clockInRange_def secondOfDay_def)
  next
    case c
    then show ?thesis
      using assms by (simp add: updateClock_def clockInRange_def secondOfDay_def)
  next
    case d
    then show ?thesis
      using assms by (simp add: updateClock_def clockInRange_def secondOfDay_def)
  qed
qed

text \<open>
  Claim C3. For every sequence of \<^verbatim>\<open>updateClock\<close> calls that starts from in-range fields
  (so also for those whose time increments sum to 60 seconds or more), after every call
  seconds and minutes are in 0..59 and hours in 0..23, and a call that ticks cascades:
  seconds advance modulo 60, a seconds overflow increments minutes modulo 60, a minutes
  overflow increments hours modulo 24; the time of day shown advances by one second modulo
  a day. A call made less than a second after the last tick changes nothing.
\<close>

theorem clock_cascade_and_range:
  assumes "clockInRange g" and "n < length ts"
  shows "clockInRange (updateClock (ts ! n) (clockCalls (take n ts) g))
       \<and> (if ts ! n - lastSecondTime (clockCalls (take n ts) g) \<ge> 1
          then seconds (updateClock (ts ! n) (clockCalls (take n ts) g))
                 = (seconds (clockCalls (take n ts) g) + 1) mod 60
             \<and> minutes (updateClock (ts ! n) (clockCalls (take n ts) g))
                 = (if seconds (clockCalls (take n ts) g) = 59
                    then (minutes (clockCalls (take n ts) g) + 1) mod 60
                    else minutes (clockCalls (take n ts) g))
             \<and> hours (updateClock (ts ! n) (clockCalls (take n ts) g))
                 = (if seconds (clockCalls (take n ts) g) = 59 \<and> minutes (clockCalls (take n ts) g) = 59
                    then (hours (clockCalls (take n ts) g) + 1) mod 24
                    else hours (clockCalls (take n ts) g))
             \<and> secondOfDay (updateClock (ts ! n) (clockCalls (take n ts) g))
                 = (secondOfDay (clockCalls (take n ts) g) + 1) mod 86400
          else updateClock (ts ! n) (clockCalls (take n ts) g) = clockCalls (take n ts) g)
       \<and> updateClock (ts ! n) (clockCalls (take n ts) g) = clockCalls (take (Suc n) ts) g"
proof -
  let ?g1 = "clockCalls (take n ts) g"
  have r: "clockInRange ?g1" using assms(1) by (rule clockCalls_inRange)
  have e: "updateClock (ts ! n) ?g1 = clockCalls (take (Suc n) ts) g"
    using assms(2) by (simp add: take_Suc_conv_app_nth clockCalls_append)
  show ?thesis
  proof (cases "ts ! n - lastSecondTime ?g1 \<ge> 1")
    case True
    show ?thesis
      using updateClock_inRange[OF r, of "ts ! n"] updateClock_tick(1-3)[OF True r]
        updateClock_secondOfDay[OF True r] True e
      by simp
  next
    case False
    then show ?thesis
      using updateClock_inRange[OF r, of "ts ! n"] updateClock_idle[OF False] e by simp
  qed
qed

text \<open>When the calls are a second or more apart every call ticks: \<open>n\<close> calls advance the
  time of day by \<open>n\<close> seconds, through all the overflows on the way.\<close>

lemma clock_ticks_every_call:
  assumes "clockInRange g" and "1 \<le> period"
  shows "secondOfDay (clockCalls (frameTimes (lastSecondTime g) period n) g) = (secondOfDay g + int n) mod 86400
       \<and> lastSecondTime (clockCalls (frameTimes (lastSecondTime g) period n) g) = lastSecondTime g + real n * period"
proof (induction n)
  case 0
  have "0 \<le> secondOfDay g" "secondOfDay g < 86400"
    using assms(1) by (auto simp: clockInRange_def secondOfDay_def)
  then show ?case by simp
next
  case (Suc n)
  let ?g = "clockCalls (frameTimes (lastSecondTime g) period n) g"
  have f: "frameTimes (lastSecondTime g) period (Suc n)
             = frameTimes (lastSecondTime g) period n @ [lastSecondTime g + real n * period + period]"
    using frameTimes_add[of "lastSecondTime g" period n 1] by simp
  have r: "clockInRange ?g" using assms(1) by (rule clockCalls_inRange)
  have t: "lastSecondTime g + real n * period + period - lastSecondTime ?g \<ge> 1"
    using Suc assms(2) by simp
  have "secondOfDay (updateClock (lastSecondTime g + real n * period + period) ?g)
          = ((secondOfDay g + int n) mod 86400 + 1) mod 86400"
    using updateClock_secondOfDay[OF t r] Suc by simp
  also have "\<dots> = (secondOfDay g + int n + 1) mod 86400"
    by (rule mod_add_left_eq)
  also have "secondOfDay g + int n + 1 = secondOfDay g + int (Suc n)"
    by simp
  finally show ?case
    unfolding f clockCalls_append
    using updateClock_tick(4)[OF t r] by (simp add: algebra_simps)
qed

text \<open>The theorem at 23:59:59 and two calls: the first rolls over to 00:00:00.\<close>

theorem clock_cascade_and_range_witness:
  "clockInRange (initialGlobals 23 59 59)
   \<and> clockInRange (updateClock 61 (clockCalls (take 1 [60, 61]) (initialGlobals 23 59 59)))
   \<and> hours (updateClock 61 (clockCalls (take 1 [60, 61]) (initialGlobals 23 59 59))) = 0
   \<and> minutes (updateClock 61 (clockCalls (take 1 [60, 61]) (initialGlobals 23 59 59))) = 0
   \<and> seconds (updateClock 61 (clockCalls (take 1 [60, 61]) (initialGlobals 23 59 59))) = 1"
proof -
  have r: "clockInRange (initialGlobals 23 59 59)"
    by (simp add: clockInRange_def initialGlobals_def)
  have n: "1 < length [60, 61 :: real]" by simp
  show ?thesis
    using clock_cascade_and_range[OF r n] r
    by (simp add: initialGlobals_def updateClock_def)
qed

section \<open>Screen navigation\<close>

text \<open>The two arrows do not overlap, so the two tests of the heart-rate screen never both
  succeed.\<close>

lemma arrows_disjoint: "\<not> (onLeftArrow g \<and> onRightArrow g)"
  by (simp add: onLeftArrow_def onRightArrow_def isPointInRect_def)

text \<open>\<^verbatim>\<open>renderWatchScreen\<close> changes \<^verbatim>\<open>currentScreen\<close> and nothing else.\<close>

lemma renderWatchScreen_eq:
  "renderWatchScreen g =
     g\<lparr>currentScreen :=
        (if watchViewMode g \<and> mouseClicked g then
           if currentScreen g = 0 \<and> onRightArrow g then 1
           else if currentScreen g = 1 \<and> onLeftArrow g then 0
           else if currentScreen g = 1 \<and> onRightArrow g then 2
           else if currentScreen g = 2 \<and> onLeftArrow g then 1
           else currentScreen g
         else currentScreen g)\<rparr>"
  using arrows_disjoint[of g]
  by (auto simp: renderWatchScreen_def drawClockScreen_def drawHeartRateScreen_def drawBatteryScreen_def
        onLeftArrow_def onRightArrow_def Let_def)

text \<open>The hit tests in window coordinates: the right arrow is hit between 85 and 95
  percent of the width and between 45 and 55 percent of the height of the window, the left
  arrow between 5 and 15 percent of the width.\<close>

lemma hit_test_right:
  fixes q r :: real
  shows "isPointInRect (q * 2 - 1) (- (r * 2 - 1)) (8 / 10) 0 (1 / 10) (1 / 10) \<longleftrightarrow>
           85 / 100 \<le> q \<and> q \<le> 95 / 100 \<and> 45 / 100 \<le> r \<and> r \<le> 55 / 100"
  unfolding isPointInRect_def by auto

lemma hit_test_left:
  fixes q r :: real
  shows "isPointInRect (q * 2 - 1) (- (r * 2 - 1)) (- (8 / 10)) 0 (1 / 10) (1 / 10) \<longleftrightarrow>
           5 / 100 \<le> q \<and> q \<le> 15 / 100 \<and> 45 / 100 \<le> r \<and> r \<le> 55 / 100"
  unfolding isPointInRect_def by auto

lemma onRightArrow_pixels:
  assumes "0 < screenWidth g" and "0 < screenHeight g"
  shows "onRightArrow g \<longleftrightarrow>
           85 / 100 * real_of_int (screenWidth g) \<le> mouseX g
           \<and> mouseX g \<le> 95 / 100 * real_of_int (screenWidth g)
           \<and> 45 / 100 * real_of_int (screenHeight g) \<le> mouseY g
           \<and> mouseY g \<le> 55 / 100 * real_of_int (screenHeight g)"
proof -
  have W: "0 < real_of_int (screenWidth g)" and H: "0 < real_of_int (screenHeight g)"
    using assms by simp_all
  show ?thesis
    unfolding onRightArrow_def normMouseX_def normMouseY_def hit_test_right
      pos_le_divide_eq[OF W] pos_divide_le_eq[OF W] pos_le_divide_eq[OF H] pos_divide_le_eq[OF H]
    by (rule refl)
qed

lemma onLeftArrow_pixels:
  assumes "0 < screenWidth g" and "0 < screenHeight g"
  shows "onLeftArrow g \<longleftrightarrow>
           5 / 100 * real_of_int (screenWidth g) \<le> mouseX g
           \<and> mouseX g \<le> 15 / 100 * real_of_int (screenWidth g)
           \<and> 45 / 100 * real_of_int (screenHeight g) \<le> mouseY g
           \<and> mouseY g \<le> 55 / 100 * real_of_int (screenHeight g)"
proof -
  have W: "0 < real_of_int (screenWidth g)" and H: "0 < real_of_int (screenHeight g)"
    using assms by simp_all
  show ?thesis
    unfolding onLeftArrow_def normMouseX_def normMouseY_def hit_test_left
      pos_le_divide_eq[OF W] pos_divide_le_eq[OF W] pos_le_divide_eq[OF H] pos_divide_le_eq[OF H]
    by (rule refl)
qed

text \<open>A pointer on an arrow by the margin is hit; a pointer off it by the margin is
  not.\<close>

lemma inside_band:
  fixes v s lo hi :: real
  assumes "0 < s" and "(lo + edgeMargin) * s \<le> v" and "v \<le> (hi - edgeMargin) * s"
  shows "lo * s \<le> v \<and> v \<le> hi * s"
proof -
  have "lo * s \<le> (lo + edgeMargin) * s" "(hi - edgeMargin) * s \<le> hi * s"
    using assms(1) by (simp_all add: edgeMargin_def algebra_simps)
  then show ?thesis using assms(2,3) by linarith
qed

lemma outside_band:
  fixes v s lo hi :: real
  assumes "0 < s" and "v \<le> (lo - edgeMargin) * s \<or> (hi + edgeMargin) * s \<le> v"
  shows "\<not> (lo * s \<le> v \<and> v \<le> hi * s)"
proof -
  have "(lo - edgeMargin) * s < lo * s" "hi * s < (hi + edgeMargin) * s"
    using assms(1) by (simp_all add: edgeMargin_def algebra_simps)
  then show ?thesis using assms(2) by linarith
qed

lemma insideArrow_right:
  assumes "insideArrow (85 / 100) (95 / 100) g"
  shows "onRightArrow g"
proof -
  have W: "0 < screenWidth g" and H: "0 < screenHeight g"
    using assms by (simp_all add: insideArrow_def)
  have "85 / 100 * real_of_int (screenWidth g) \<le> mouseX g \<and> mouseX g \<le> 95 / 100 * real_of_int (screenWidth g)"
    using assms W unfolding insideArrow_def by (intro inside_band) simp_all
  moreover have "45 / 100 * real_of_int (screenHeight g) \<le> mouseY g \<and> mouseY g \<le> 55 / 100 * real_of_int (screenHeight g)"
    using assms H unfolding insideArrow_def by (intro inside_band) simp_all
  ultimately show ?thesis
    unfolding onRightArrow_pixels[OF W H] by blast
qed

lemma insideArrow_left:
  assumes "insideArrow (5 / 100) (15 / 100) g"
  shows "onLeftArrow g"
proof -
  have W: "0 < screenWidth g" and H: "0 < screenHeight g"
    using assms by (simp_all add: insideArrow_def)
  have "5 / 100 * real_of_int (screenWidth g) \<le> mouseX g \<and> mouseX g \<le> 15 / 100 * real_of_int (screenWidth g)"
    using assms W unfolding insideArrow_def by (intro inside_band) simp_all
  moreover have "45 / 100 * real_of_int (screenHeight g) \<le> mouseY g \<and> mouseY g \<le> 55 / 100 * real_of_int (screenHeight g)"
    using assms H unfolding insideArrow_def by (intro inside_band) simp_all
  ultimately show ?thesis
    unfolding onLeftArrow_pixels[OF W H] by blast
qed

lemma outsideArrow_right:
  assumes "outsideArrow (85 / 100) (95 / 100) g"
  shows "\<not> onRightArrow g"
proof -
  have W: "0 < screenWidth g" and H: "0 < screenHeight g"
    using assms by (simp_all add: outsideArrow_def)
  have W': "0 < real_of_int (screenWidth g)" and H': "0 < real_of_int (screenHeight g)"
    using W H by simp_all
  from assms have "(mouseX g \<le> (85 / 100 - edgeMargin) * real_of_int (screenWidth g)
        \<or> (95 / 100 + edgeMargin) * real_of_int (screenWidth g) \<le> mouseX g)
      \<or> (mouseY g \<le> (45 / 100 - edgeMargin) * real_of_int (screenHeight g)
        \<or> (55 / 100 + edgeMargin) * real_of_int (screenHeight g) \<le> mouseY g)"
    unfolding outsideArrow_def by blast
  then show ?thesis
    unfolding onRightArrow_pixels[OF W H]
    using outside_band[OF W'] outside_band[OF H'] by blast
qed

lemma outsideArrow_left:
  assumes "outsideArrow (5 / 100) (15 / 100) g"
  shows "\<not> onLeftArrow g"
proof -
  have W: "0 < screenWidth g" and H: "0 < screenHeight g"
    using assms by (simp_all add: outsideArrow_def)
  have W': "0 < real_of_int (screenWidth g)" and H': "0 < real_of_int (screenHeight g)"
    using W H by simp_all
  from assms have "(mouseX g \<le> (5 / 100 - edgeMargin) * real_of_int (screenWidth g)
        \<or> (15 / 100 + edgeMargin) * real_of_int (screenWidth g) \<le> mouseX g)
      \<or> (mouseY g \<le> (45 / 100 - edgeMargin) * real_of_int (screenHeight g)
        \<or> (55 / 100 + edgeMargin) * real_of_int (screenHeight g) \<le> mouseY g)"
    unfolding outsideArrow_def by blast
  then show ?thesis
    unfolding onLeftArrow_pixels[OF W H]
    using outside_band[OF W'] outside_band[OF H'] by blast
qed

section \<open>The frame loop and the click flag\<close>

text \<open>The update functions leave the variables of the hit tests alone, and the hit tests
  read nothing else.\<close>

lemma updateClock_pointerState: "pointerState (updateClock t g) = pointerState g"
  by (simp add: pointerState_def updateClock_def Let_def)

lemma updateHeartRate_pointerState: "pointerState (updateHeartRate dt rnd g) = pointerState g"
  by (simp add: pointerState_def updateHeartRate_def Let_def)

lemma updateBattery_pointerState: "pointerState (updateBattery t g) = pointerState g"
  by (simp add: pointerState_def updateBattery_def Let_def)

lemma updateRunning_pointerState: "pointerState (updateRunning dt g) = pointerState g"
  by (simp add: pointerState_def updateRunning_def Let_def)

lemma renderWatchScreen_reads:
  assumes "pointerState g = pointerState h"
  shows "currentScreen (renderWatchScreen g) = currentScreen (renderWatchScreen h)"
proof -
  have "onRightArrow g = onRightArrow h" "onLeftArrow g = onLeftArrow h"
    using assms by (simp_all add: pointerState_def onRightArrow_def onLeftArrow_def normMouseX_def normMouseY_def)
  moreover have "currentScreen g = currentScreen h" "watchViewMode g = watchViewMode h"
    "mouseClicked g = mouseClicked h"
    using assms by (simp_all add: pointerState_def)
  ultimately show ?thesis
    by (simp add: renderWatchScreen_eq)
qed


lemma frameBody_currentScreen:
  "currentScreen (frameBody inp g) = currentScreen (renderWatchScreen g)"
proof -
  define currentTime where
    "currentTime = (if timeAtStart inp - lastTime g < TARGET_FRAME_TIME then timeAfterSleep inp else timeAtStart inp)"
  define g1 where "g1 = g\<lparr>lastTime := currentTime, isRunning := (keyD inp \<and> currentScreen g = 1)\<rparr>"
  define g2 where "g2 = updateRunning (currentTime - lastTime g)
     (updateBattery currentTime (updateHeartRate (currentTime - lastTime g) (randValue inp) (updateClock currentTime g1)))"
  define g3 where "g3 = g2\<lparr>cameraPitch := cameraBasePitch g2 + cameraBobOffset g2 * 100,
     cameraPos_y := 16 / 10 + cameraBobOffset g2\<rparr>"
  have "frameBody inp g = (renderWatchScreen g3)\<lparr>mouseClicked := False\<rparr>"
    by (simp add: frameBody_def Let_def g3_def g2_def g1_def currentTime_def)
  moreover have "pointerState g3 = pointerState g"
  proof -
    have "pointerState g3 = pointerState g2" by (simp add: g3_def pointerState_def)
    also have "\<dots> = pointerState g1"
      by (simp add: g2_def updateRunning_pointerState updateBattery_pointerState
            updateHeartRate_pointerState updateClock_pointerState)
    also have "\<dots> = pointerState g" by (simp add: g1_def pointerState_def)
    finally show ?thesis .
  qed
  ultimately show ?thesis
    using renderWatchScreen_reads[of g3 g] by simp
qed









section \<open>Where and when a click counts\<close>

text \<open>What a frame and what each callback does to the variables of the hit tests.\<close>

lemma renderWatchScreen_keeps:
  shows "watchViewMode (renderWatchScreen g) = watchViewMode g"
    and "mouseClicked (renderWatchScreen g) = mouseClicked g"
    and "mouseX (renderWatchScreen g) = mouseX g"
    and "mouseY (renderWatchScreen g) = mouseY g"
    and "screenWidth (renderWatchScreen g) = screenWidth g"
    and "screenHeight (renderWatchScreen g) = screenHeight g"
proof -
  obtain c where "renderWatchScreen g = g\<lparr>currentScreen := c\<rparr>"
    using renderWatchScreen_eq by blast
  then show "watchViewMode (renderWatchScreen g) = watchViewMode g"
    and "mouseClicked (renderWatchScreen g) = mouseClicked g"
    and "mouseX (renderWatchScreen g) = mouseX g"
    and "mouseY (renderWatchScreen g) = mouseY g"
    and "screenWidth (renderWatchScreen g) = screenWidth g"
    and "screenHeight (renderWatchScreen g) = screenHeight g"
    by simp_all
qed

lemma frameBody_pointerState:
  "pointerState (frameBody inp g) =
     (currentScreen (renderWatchScreen g), watchViewMode g, False, mouseX g, mouseY g,
      screenWidth g, screenHeight g)"
proof -
  define currentTime where
    "currentTime = (if timeAtStart inp - lastTime g < TARGET_FRAME_TIME then timeAfterSleep inp else timeAtStart inp)"
  define g1 where "g1 = g\<lparr>lastTime := currentTime, isRunning := (keyD inp \<and> currentScreen g = 1)\<rparr>"
  define g2 where "g2 = updateRunning (currentTime - lastTime g)
     (updateBattery currentTime (updateHeartRate (currentTime - lastTime g) (randValue inp) (updateClock currentTime g1)))"
  define g3 where "g3 = g2\<lparr>cameraPitch := cameraBasePitch g2 + cameraBobOffset g2 * 100,
     cameraPos_y := 16 / 10 + cameraBobOffset g2\<rparr>"
  have f: "frameBody inp g = (renderWatchScreen g3)\<lparr>mouseClicked := False\<rparr>"
    by (simp add: frameBody_def Let_def g3_def g2_def g1_def currentTime_def)
  have p: "pointerState g3 = pointerState g"
  proof -
    have "pointerState g3 = pointerState g2" by (simp add: g3_def pointerState_def)
    also have "\<dots> = pointerState g1"
      by (simp add: g2_def updateRunning_pointerState updateBattery_pointerState
            updateHeartRate_pointerState updateClock_pointerState)
    also have "\<dots> = pointerState g" by (simp add: g1_def pointerState_def)
    finally show ?thesis .
  qed
  have "pointerState (frameBody inp g) =
     (currentScreen (renderWatchScreen g3), watchViewMode g3, False, mouseX g3, mouseY g3,
      screenWidth g3, screenHeight g3)"
    unfolding f by (simp add: pointerState_def renderWatchScreen_keeps)
  then show ?thesis
    using p renderWatchScreen_reads[OF p] by (simp add: pointerState_def)
qed

lemma frameBody_fields:
  shows "currentScreen (frameBody inp g) = currentScreen (renderWatchScreen g)"
    and "watchViewMode (frameBody inp g) = watchViewMode g"
    and "mouseClicked (frameBody inp g) = False"
    and "mouseX (frameBody inp g) = mouseX g"
    and "mouseY (frameBody inp g) = mouseY g"
    and "screenWidth (frameBody inp g) = screenWidth g"
    and "screenHeight (frameBody inp g) = screenHeight g"
  using frameBody_pointerState[of inp g] by (simp_all add: pointerState_def)

lemma leftClick_fields:
  shows "currentScreen (dispatch leftClick g) = currentScreen g"
    and "watchViewMode (dispatch leftClick g) = watchViewMode g"
    and "mouseClicked (dispatch leftClick g) = True"
    and "mouseX (dispatch leftClick g) = mouseX g"
    and "mouseY (dispatch leftClick g) = mouseY g"
    and "screenWidth (dispatch leftClick g) = screenWidth g"
    and "screenHeight (dispatch leftClick g) = screenHeight g"
  by (simp_all add: leftClick_def mouse_button_callback_def)

lemma cursor_position_fields:
  shows "currentScreen (cursor_position_callback x y g) = currentScreen g"
    and "watchViewMode (cursor_position_callback x y g) = watchViewMode g"
    and "mouseClicked (cursor_position_callback x y g) = mouseClicked g"
    and "mouseX (cursor_position_callback x y g) = x"
    and "mouseY (cursor_position_callback x y g) = y"
    and "screenWidth (cursor_position_callback x y g) = screenWidth g"
    and "screenHeight (cursor_position_callback x y g) = screenHeight g"
  by (simp_all add: cursor_position_callback_def Let_def)

lemma space_key_fields:
  shows "currentScreen (key_callback GLFW_KEY_SPACE GLFW_PRESS g) = currentScreen g"
    and "watchViewMode (key_callback GLFW_KEY_SPACE GLFW_PRESS g) = (\<not> watchViewMode g)"
    and "mouseClicked (key_callback GLFW_KEY_SPACE GLFW_PRESS g) = mouseClicked g"
    and "mouseX (key_callback GLFW_KEY_SPACE GLFW_PRESS g) = mouseX g"
    and "mouseY (key_callback GLFW_KEY_SPACE GLFW_PRESS g) = mouseY g"
    and "screenWidth (key_callback GLFW_KEY_SPACE GLFW_PRESS g) = screenWidth g"
    and "screenHeight (key_callback GLFW_KEY_SPACE GLFW_PRESS g) = screenHeight g"
  by (simp_all add: key_callback_def Let_def GLFW_KEY_SPACE_def GLFW_KEY_ESCAPE_def
        GLFW_KEY_F1_def GLFW_KEY_F2_def)

text \<open>
  Claim C5 says that a click outside the hot-rects, and a click while \<^verbatim>\<open>watchViewMode\<close> is
  false, leave \<^verbatim>\<open>currentScreen\<close> unchanged. The click callback only sets a flag; the
  screens test the place of the pointer and \<^verbatim>\<open>watchViewMode\<close> when they are drawn, in the
  next frame. With the clock shown in watch-view mode and the pointer in the middle of the
  window (960, 540), a left click followed in the same \<^verbatim>\<open>glfwPollEvents\<close> by a move of the
  pointer onto the right arrow (1728, 540) changes the screen to the heart rate, although
  the click was outside the hot-rect.
\<close>

theorem click_beside_arrow_changes_screen:
  "currentScreen (glfwPollEvents [Key GLFW_KEY_SPACE GLFW_PRESS, CursorPos 960 540] (initialGlobals 9 30 0)) = 0
   \<and> watchViewMode (glfwPollEvents [Key GLFW_KEY_SPACE GLFW_PRESS, CursorPos 960 540] (initialGlobals 9 30 0))
   \<and> mouseX (dispatch leftClick
        (frameBody \<lparr>timeAtStart = 1, timeAfterSleep = 1, keyD = False, randValue = 0,
                    polled = [leftClick, CursorPos 1728 540]\<rparr>
          (glfwPollEvents [Key GLFW_KEY_SPACE GLFW_PRESS, CursorPos 960 540] (initialGlobals 9 30 0)))) = 960
   \<and> mouseY (dispatch leftClick
        (frameBody \<lparr>timeAtStart = 1, timeAfterSleep = 1, keyD = False, randValue = 0,
                    polled = [leftClick, CursorPos 1728 540]\<rparr>
          (glfwPollEvents [Key GLFW_KEY_SPACE GLFW_PRESS, CursorPos 960 540] (initialGlobals 9 30 0)))) = 540
   \<and> \<not> isPointInRect (960 / 1920 * 2 - 1) (- (540 / 1080 * 2 - 1)) (8 / 10) 0 (1 / 10) (1 / 10)
   \<and> currentScreen
        (frame \<lparr>timeAtStart = 2, timeAfterSleep = 2, keyD = False, randValue = 0, polled = []\<rparr>
          (frame \<lparr>timeAtStart = 1, timeAfterSleep = 1, keyD = False, randValue = 0,
                  polled = [leftClick, CursorPos 1728 540]\<rparr>
            (glfwPollEvents [Key GLFW_KEY_SPACE GLFW_PRESS, CursorPos 960 540] (initialGlobals 9 30 0)))) = 1"
proof -
  let ?g0 = "glfwPollEvents [Key GLFW_KEY_SPACE GLFW_PRESS, CursorPos 960 540] (initialGlobals 9 30 0)"
  let ?A = "\<lparr>timeAtStart = 1, timeAfterSleep = 1, keyD = False, randValue = 0,
                  polled = [leftClick, CursorPos 1728 540]\<rparr>"
  let ?B = "\<lparr>timeAtStart = 2, timeAfterSleep = 2, keyD = False, randValue = 0, polled = []\<rparr>"
  have f0: "currentScreen ?g0 = 0" "watchViewMode ?g0" "\<not> mouseClicked ?g0"
    "mouseX ?g0 = 960" "mouseY ?g0 = 540" "screenWidth ?g0 = 1920" "screenHeight ?g0 = 1080"
    by (simp_all add: cursor_position_fields space_key_fields initialGlobals_def)
  have r0: "currentScreen (renderWatchScreen ?g0) = 0"
    using f0(1,3) by (simp only: renderWatchScreen_eq) simp
  have m: "mouseX (dispatch leftClick (frameBody ?A ?g0)) = 960"
    "mouseY (dispatch leftClick (frameBody ?A ?g0)) = 540"
    using f0 by (simp_all only: leftClick_fields frameBody_fields)
  have x: "frame ?A ?g0 = cursor_position_callback 1728 540 (dispatch leftClick (frameBody ?A ?g0))"
    by (simp add: frame_def)
  have f3: "currentScreen (frame ?A ?g0) = 0" "watchViewMode (frame ?A ?g0)" "mouseClicked (frame ?A ?g0)"
    "mouseX (frame ?A ?g0) = 1728" "mouseY (frame ?A ?g0) = 540"
    "screenWidth (frame ?A ?g0) = 1920" "screenHeight (frame ?A ?g0) = 1080"
    unfolding x cursor_position_fields leftClick_fields frameBody_fields
    using f0 r0 by simp_all
  have "onRightArrow (frame ?A ?g0)"
    using f3 by (simp add: onRightArrow_def isPointInRect_def normMouseX_def normMouseY_def)
  then have "currentScreen (renderWatchScreen (frame ?A ?g0)) = 1"
    using f3 by (simp add: renderWatchScreen_eq)
  then have last: "currentScreen (frame ?B (frame ?A ?g0)) = 1"
    by (simp add: frame_def frameBody_currentScreen)
  have off: "\<not> isPointInRect (960 / 1920 * 2 - 1) (- (540 / 1080 * 2 - 1)) (8 / 10) 0 (1 / 10) (1 / 10)"
    by (simp add: isPointInRect_def)
  from f0(1,2) m off last show ?thesis by blast
qed


text \<open>Likewise a click made while \<^verbatim>\<open>watchViewMode\<close> is false changes the screen when
  SPACE follows it in the same \<^verbatim>\<open>glfwPollEvents\<close>.\<close>

lemma click_before_raising_watch:
  "\<not> watchViewMode (dispatch leftClick
        (frameBody \<lparr>timeAtStart = 1, timeAfterSleep = 1, keyD = False, randValue = 0,
                    polled = [leftClick, Key GLFW_KEY_SPACE GLFW_PRESS]\<rparr>
          (glfwPollEvents [CursorPos 1728 540] (initialGlobals 9 30 0))))
   \<and> currentScreen
        (frame \<lparr>timeAtStart = 2, timeAfterSleep = 2, keyD = False, randValue = 0, polled = []\<rparr>
          (frame \<lparr>timeAtStart = 1, timeAfterSleep = 1, keyD = False, randValue = 0,
                  polled = [leftClick, Key GLFW_KEY_SPACE GLFW_PRESS]\<rparr>
            (glfwPollEvents [CursorPos 1728 540] (initialGlobals 9 30 0)))) = 1"
proof -
  let ?g0 = "glfwPollEvents [CursorPos 1728 540] (initialGlobals 9 30 0)"
  let ?A = "\<lparr>timeAtStart = 1, timeAfterSleep = 1, keyD = False, randValue = 0,
                  polled = [leftClick, Key GLFW_KEY_SPACE GLFW_PRESS]\<rparr>"
  let ?B = "\<lparr>timeAtStart = 2, timeAfterSleep = 2, keyD = False, randValue = 0, polled = []\<rparr>"
  have f0: "currentScreen ?g0 = 0" "\<not> watchViewMode ?g0" "\<not> mouseClicked ?g0"
    "mouseX ?g0 = 1728" "mouseY ?g0 = 540" "screenWidth ?g0 = 1920" "screenHeight ?g0 = 1080"
    by (simp_all add: cursor_position_fields initialGlobals_def)
  have r0: "currentScreen (renderWatchScreen ?g0) = 0"
    using f0(1,2) by (simp only: renderWatchScreen_eq) simp
  have m: "\<not> watchViewMode (dispatch leftClick (frameBody ?A ?g0))"
    using f0 by (simp only: leftClick_fields frameBody_fields) simp
  have x: "frame ?A ?g0 = key_callback GLFW_KEY_SPACE GLFW_PRESS (dispatch leftClick (frameBody ?A ?g0))"
    by (simp add: frame_def)
  have f3: "currentScreen (frame ?A ?g0) = 0" "watchViewMode (frame ?A ?g0)" "mouseClicked (frame ?A ?g0)"
    "mouseX (frame ?A ?g0) = 1728" "mouseY (frame ?A ?g0) = 540"
    "screenWidth (frame ?A ?g0) = 1920" "screenHeight (frame ?A ?g0) = 1080"
    unfolding x space_key_fields leftClick_fields frameBody_fields
    using f0 r0 by simp_all
  have "onRightArrow (frame ?A ?g0)"
    using f3 by (simp add: onRightArrow_def isPointInRect_def normMouseX_def normMouseY_def)
  then have "currentScreen (renderWatchScreen (frame ?A ?g0)) = 1"
    using f3 by (simp add: renderWatchScreen_eq)
  then have "currentScreen (frame ?B (frame ?A ?g0)) = 1"
    by (simp add: frame_def frameBody_currentScreen)
  with m show ?thesis by blast
qed

text \<open>
  Claim C5, amended. The screen navigation over \<^verbatim>\<open>currentScreen\<close> (0 clock, 1 heart rate,
  2 battery) is decided when the watch screen is drawn, by the click flag, by
  \<^verbatim>\<open>watchViewMode\<close> and by the place of the pointer at that moment, not at the moment of the
  click. With a click captured since the last frame, \<^verbatim>\<open>watchViewMode\<close> true and the pointer
  on an arrow: from the clock the right arrow leads to the heart rate; from the heart rate
  the left arrow leads to the clock and the right arrow to the battery; from the battery
  the left arrow leads to the heart rate. Without a captured click, with \<^verbatim>\<open>watchViewMode\<close>
  false, or with the pointer off the arrows of the screen, \<^verbatim>\<open>currentScreen\<close> stays as it
  is. On and off an arrow are meant with the margin of \<open>insideArrow\<close> and
  \<open>outsideArrow\<close>; for a pointer on the very edge of an arrow nothing is claimed.
\<close>

theorem screen_navigation:
  "(currentScreen g = 0 \<and> watchViewMode g \<and> mouseClicked g \<and> insideArrow (85 / 100) (95 / 100) g
      \<longrightarrow> currentScreen (renderWatchScreen g) = 1)
   \<and> (currentScreen g = 0 \<and> (\<not> watchViewMode g \<or> \<not> mouseClicked g \<or> outsideArrow (85 / 100) (95 / 100) g)
      \<longrightarrow> currentScreen (renderWatchScreen g) = 0)
   \<and> (currentScreen g = 1 \<and> watchViewMode g \<and> mouseClicked g \<and> insideArrow (5 / 100) (15 / 100) g
      \<longrightarrow> currentScreen (renderWatchScreen g) = 0)
   \<and> (currentScreen g = 1 \<and> watchViewMode g \<and> mouseClicked g \<and> insideArrow (85 / 100) (95 / 100) g
      \<longrightarrow> currentScreen (renderWatchScreen g) = 2)
   \<and> (currentScreen g = 1 \<and> (\<not> watchViewMode g \<or> \<not> mouseClicked g
          \<or> outsideArrow (5 / 100) (15 / 100) g \<and> outsideArrow (85 / 100) (95 / 100) g)
      \<longrightarrow> currentScreen (renderWatchScreen g) = 1)
   \<and> (currentScreen g = 2 \<and> watchViewMode g \<and> mouseClicked g \<and> insideArrow (5 / 100) (15 / 100) g
      \<longrightarrow> currentScreen (renderWatchScreen g) = 1)
   \<and> (currentScreen g = 2 \<and> (\<not> watchViewMode g \<or> \<not> mouseClicked g \<or> outsideArrow (5 / 100) (15 / 100) g)
      \<longrightarrow> currentScreen (renderWatchScreen g) = 2)"
  using insideArrow_right[of g] insideArrow_left[of g] outsideArrow_right[of g] outsideArrow_left[of g]
    arrows_disjoint[of g]
  unfolding renderWatchScreen_eq by auto

text \<open>The theorem on a window of 1920 by 1080: a click on the arrow of each screen, a
  click in the middle of the window, a click below the arrow, a click with the watch
  lowered and a frame without a click.\<close>

theorem screen_navigation_witness:
  "currentScreen (renderWatchScreen ((initialGlobals 9 30 0)
      \<lparr>watchViewMode := True, mouseX := 1728, mouseY := 540, mouseClicked := True\<rparr>)) = 1
   \<and> currentScreen (renderWatchScreen ((initialGlobals 9 30 0)
      \<lparr>watchViewMode := True, mouseX := 960, mouseY := 540, mouseClicked := True\<rparr>)) = 0
   \<and> currentScreen (renderWatchScreen ((initialGlobals 9 30 0)
      \<lparr>watchViewMode := False, mouseX := 1728, mouseY := 540, mouseClicked := True\<rparr>)) = 0
   \<and> currentScreen (renderWatchScreen ((initialGlobals 9 30 0)
      \<lparr>currentScreen := 1, watchViewMode := True, mouseX := 192, mouseY := 540, mouseClicked := True\<rparr>)) = 0
   \<and> currentScreen (renderWatchScreen ((initialGlobals 9 30 0)
      \<lparr>currentScreen := 1, watchViewMode := True, mouseX := 1728, mouseY := 540, mouseClicked := True\<rparr>)) = 2
   \<and> currentScreen (renderWatchScreen ((initialGlobals 9 30 0)
      \<lparr>currentScreen := 1, watchViewMode := True, mouseX := 1728, mouseY := 700, mouseClicked := True\<rparr>)) = 1
   \<and> currentScreen (renderWatchScreen ((initialGlobals 9 30 0)
      \<lparr>currentScreen := 2, watchViewMode := True, mouseX := 192, mouseY := 540, mouseClicked := True\<rparr>)) = 1
   \<and> currentScreen (renderWatchScreen ((initialGlobals 9 30 0)
      \<lparr>currentScreen := 2, watchViewMode := True, mouseX := 1728, mouseY := 540, mouseClicked := False\<rparr>)) = 2"
  using
    screen_navigation [of "(initialGlobals 9 30 0)
      \<lparr>watchViewMode := True, mouseX := 1728, mouseY := 540, mouseClicked := True\<rparr>"]
    screen_navigation [of "(initialGlobals 9 30 0)
      \<lparr>watchViewMode := True, mouseX := 960, mouseY := 540, mouseClicked := True\<rparr>"]
    screen_navigation [of "(initialGlobals 9 30 0)
      \<lparr>watchViewMode := False, mouseX := 1728, mouseY := 540, mouseClicked := True\<rparr>"]
    screen_navigation [of "(initialGlobals 9 30 0)
      \<lparr>currentScreen := 1, watchViewMode := True, mouseX := 192, mouseY := 540, mouseClicked := True\<rparr>"]
    screen_navigation [of "(initialGlobals 9 30 0)
      \<lparr>currentScreen := 1, watchViewMode := True, mouseX := 1728, mouseY := 540, mouseClicked := True\<rparr>"]
    screen_navigation [of "(initialGlobals 9 30 0)
      \<lparr>currentScreen := 1, watchViewMode := True, mouseX := 1728, mouseY := 700, mouseClicked := True\<rparr>"]
    screen_navigation [of "(initialGlobals 9 30 0)
      \<lparr>currentScreen := 2, watchViewMode := True, mouseX := 192, mouseY := 540, mouseClicked := True\<rparr>"]
    screen_navigation [of "(initialGlobals 9 30 0)
      \<lparr>currentScreen := 2, watchViewMode := True, mouseX := 1728, mouseY := 540, mouseClicked := False\<rparr>"]
  by (simp add: initialGlobals_def insideArrow_def outsideArrow_def edgeMargin_def)

section \<open>Building wrap\<close>

text \<open>The rounding moves a number by at most half a unit in the last place, that is by
  at most the fraction \<open>2^-24\<close> of its magnitude.\<close>

lemma roundEven_error: "\<bar>of_int (roundEven m) - m\<bar> \<le> 1 / 2"
proof -
  have "of_int \<lfloor>m\<rfloor> \<le> m" "m < of_int \<lfloor>m\<rfloor> + 1" by linarith+
  then show ?thesis
    unfolding roundEven_def Let_def by (auto simp: abs_le_iff)
qed

lemma binaryExponent_bounds:
  assumes "0 < a"
  shows "2 powi (binaryExponent a) \<le> a" and "a < 2 powi (binaryExponent a + 1)"
proof -
  have "2 powi (binaryExponent a) \<le> a \<and> a < 2 powi (binaryExponent a + 1)"
  proof (cases "1 \<le> a")
    case True
    define n where "n = \<lfloor>a\<rfloor>"
    have n: "0 < n" "of_int n \<le> a" "a < of_int n + 1" using True unfolding n_def by linarith+
    define k where "k = nat (bitlen n - 1)"
    have b: "2 ^ k \<le> n" "n < 2 ^ nat (bitlen n)"
      using bitlen_bounds[OF n(1)] by (simp_all add: k_def)
    have "1 \<le> bitlen n" using n(1) by (simp add: bitlen_alt_def)
    then have e: "binaryExponent a = int k" "nat (bitlen n) = Suc k"
      using True by (simp_all add: binaryExponent_def n_def k_def)
    have "n + 1 \<le> 2 ^ Suc k" using b(2) e(2) by simp
    then have "real_of_int (n + 1) \<le> real_of_int (2 ^ Suc k)" by (rule of_int_le_iff[THEN iffD2])
    moreover have "real_of_int (2 ^ Suc k) = 2 ^ Suc k" by simp
    ultimately have "real_of_int n + 1 \<le> 2 ^ Suc k" by (simp only: of_int_add of_int_1)
    then have "a < 2 ^ Suc k" using n(3) by linarith
    moreover have "real_of_int (2 ^ k) \<le> real_of_int n" using b(1) by (rule of_int_le_iff[THEN iffD2])
    then have "real_of_int (2 ^ k) \<le> a" using n(2) by linarith
    then have "2 ^ k \<le> a" by simp
    moreover have "int k + 1 = int (Suc k)" by simp
    ultimately show ?thesis
      unfolding e(1) by (simp only: power_int_of_nat) 
  next
    case False
    then have a1: "a < 1" by simp
    define c where "c = \<lceil>1 / a\<rceil>"
    have y: "1 < 1 / a" using assms a1 by simp
    then have c: "2 \<le> c" "1 / a \<le> of_int c" "of_int c - 1 < 1 / a"
      unfolding c_def by linarith+
    define j where "j = nat (bitlen (c - 1))"
    have pos: "0 < c - 1" using c(1) by simp
    have b: "2 ^ nat (bitlen (c - 1) - 1) \<le> c - 1" "c - 1 < 2 ^ j"
      using bitlen_bounds[OF pos] by (simp_all add: j_def)
    have j1: "1 \<le> bitlen (c - 1)" using pos by (simp add: bitlen_alt_def)
    then obtain j' where j': "j = Suc j'" "nat (bitlen (c - 1) - 1) = j'"
      by (cases j) (auto simp: j_def)
    have e: "binaryExponent a = - int j"
      using False j1 by (simp add: binaryExponent_def c_def j_def)
    have "c \<le> 2 ^ j" using b(2) by simp
    then have "real_of_int c \<le> real_of_int (2 ^ j)" by (rule of_int_le_iff[THEN iffD2])
    then have "1 / a \<le> real_of_int (2 ^ j)" using c(2) by linarith
    then have "1 / a \<le> 2 ^ j" by simp
    then have lo: "1 / 2 ^ j \<le> a"
      using assms by (simp add: field_simps)
    have "2 ^ j' \<le> c - 1" using b(1) j'(2) by simp
    then have "real_of_int (2 ^ j') \<le> real_of_int (c - 1)" by (rule of_int_le_iff[THEN iffD2])
    then have "real_of_int (2 ^ j') \<le> real_of_int c - 1" by (simp only: of_int_diff of_int_1)
    then have "real_of_int (2 ^ j') < 1 / a" using c(3) by linarith
    then have "2 ^ j' < 1 / a" by simp
    then have hi: "a < 1 / 2 ^ j'"
      using assms by (simp add: field_simps)
    have p1: "(2::real) powi (- int j) = 1 / 2 ^ j"
      by (simp add: power_int_minus field_simps)
    have "- int j + 1 = - int j'" using j'(1) by simp
    then have "(2::real) powi (- int j + 1) = 2 powi (- int j')" by simp
    also have "\<dots> = 1 / 2 ^ j'"
      by (simp add: power_int_minus field_simps)
    finally have p2: "(2::real) powi (- int j + 1) = 1 / 2 ^ j'" .
    show ?thesis unfolding e p1 p2 using lo hi by simp
  qed
  then show "2 powi (binaryExponent a) \<le> a" and "a < 2 powi (binaryExponent a + 1)" by simp_all
qed

lemma float32_error: "\<bar>float32 v - v\<bar> \<le> \<bar>v\<bar> / 2 ^ 24"
proof (cases "v = 0")
  case True
  then show ?thesis by (simp add: float32_def)
next
  case False
  define e where "e = binaryExponent \<bar>v\<bar>"
  define u :: real where "u = 2 powi (e - 23)"
  have u: "0 < u" by (simp add: u_def)
  have f: "float32 v = of_int (roundEven (v / u)) * u"
    using False by (simp add: float32_def Let_def u_def e_def)
  have "float32 v - v = (of_int (roundEven (v / u)) - v / u) * u"
    using u by (simp add: f algebra_simps)
  then have "\<bar>float32 v - v\<bar> = \<bar>of_int (roundEven (v / u)) - v / u\<bar> * u"
    using u by (simp add: abs_mult)
  also have "\<dots> \<le> 1 / 2 * u"
    using roundEven_error[of "v / u"] u by (intro mult_right_mono) simp_all
  finally have 1: "\<bar>float32 v - v\<bar> \<le> u / 2" by simp
  have "(2::real) powi e \<le> \<bar>v\<bar>"
    using binaryExponent_bounds(1)[of "\<bar>v\<bar>"] False by (simp add: e_def)
  moreover have "u = 2 powi e / 2 ^ 23"
    by (simp add: u_def power_int_diff)
  ultimately have "u / 2 \<le> \<bar>v\<bar> / 2 ^ 24" by simp
  with 1 show ?thesis by linarith
qed

lemma segments_length: "real_of_int NUM_GROUND_SEGMENTS * GROUND_SEGMENT_LENGTH = 100"
  by (simp add: NUM_GROUND_SEGMENTS_def GROUND_SEGMENT_LENGTH_def)

text \<open>Some roundings. Between \<open>2^31\<close> and \<open>2^32\<close> the \<^verbatim>\<open>float\<close> numbers are 256 apart,
  so \<open>2^32 - 100\<close> rounds back to \<open>2^32\<close>.\<close>

lemma float32_big_minus_100: "float32 4294967196 = 4294967296"
  by code_simp

lemma float32_big_sum: "float32 4294967286 = 4294967296"
  by code_simp

lemma float32_35: "float32 35 = 35" "float32 (- 65) = - 65"
  by code_simp+


text \<open>Below the magnitude \<open>2^31\<close> the \<^verbatim>\<open>float\<close> numbers are at most 128 apart, so the
  rounding moves a number by at most 64, and a round of either loop moves \<^verbatim>\<open>pos.z\<close> by
  at least 36.\<close>

lemma float32_sign:
  shows "v \<le> 0 \<Longrightarrow> float32 v \<le> 0" and "0 \<le> v \<Longrightarrow> 0 \<le> float32 v"
  using float32_error[of v] by (auto simp: abs_le_iff abs_if split: if_splits) 

lemma binaryExponent_less:
  assumes "0 < a" and "a < 2 ^ k"
  shows "binaryExponent a < int k"
proof (rule ccontr)
  assume "\<not> binaryExponent a < int k"
  then have "int k \<le> binaryExponent a" by simp
  then have "(2::real) powi int k \<le> 2 powi binaryExponent a"
    by (intro power_int_increasing) simp_all
  then have "(2::real) ^ k \<le> a"
    using binaryExponent_bounds(1)[OF assms(1)] by simp
  then show False using assms(2) by simp
qed

lemma float32_below:
  assumes "\<bar>v\<bar> < 2 ^ 31"
  shows "v - 64 \<le> float32 v" and "float32 v \<le> v + 64"
proof -
  have "\<bar>float32 v - v\<bar> \<le> 64"
  proof (cases "v = 0")
    case True
    then show ?thesis by (simp add: float32_def)
  next
    case False
    define e where "e = binaryExponent \<bar>v\<bar>"
    define u :: real where "u = 2 powi (e - 23)"
    have u: "0 < u" by (simp add: u_def)
    have "e < 31" using binaryExponent_less[of "\<bar>v\<bar>" 31] assms False by (simp add: e_def)
    then have "e - 23 \<le> 7" by simp
    then have "u \<le> 2 powi 7" unfolding u_def by (intro power_int_increasing) simp_all
    then have u7: "u \<le> 128" by simp
    have f: "float32 v = of_int (roundEven (v / u)) * u"
      using False by (simp add: float32_def Let_def u_def e_def)
    have "float32 v - v = (of_int (roundEven (v / u)) - v / u) * u"
      using u by (simp add: f algebra_simps)
    then have "\<bar>float32 v - v\<bar> = \<bar>of_int (roundEven (v / u)) - v / u\<bar> * u"
      using u by (simp add: abs_mult)
    also have "\<dots> \<le> 1 / 2 * u"
      using roundEven_error[of "v / u"] u by (intro mult_right_mono) simp_all
    finally show ?thesis using u7 by simp
  qed
  then show "v - 64 \<le> float32 v" and "float32 v \<le> v + 64" by linarith+
qed

lemma float32_pow31: "float32 2147483648 = 2147483648" "float32 (- 2147483648) = - 2147483648"
  by code_simp+

lemma float32_upto:
  assumes "\<bar>v\<bar> \<le> 2 ^ 31"
  shows "v - 64 \<le> float32 v" and "float32 v \<le> v + 64"
proof -
  have "v - 64 \<le> float32 v \<and> float32 v \<le> v + 64"
  proof (cases "\<bar>v\<bar> < 2 ^ 31")
    case True
    then show ?thesis using float32_below by simp
  next
    case False
    then have "v = 2147483648 \<or> v = - 2147483648"
      using assms by (simp add: abs_if split: if_splits)
    then show ?thesis using float32_pow31 by auto
  qed
  then show "v - 64 \<le> float32 v" and "float32 v \<le> v + 64" by simp_all
qed

lemma wrapFar_returns:
  assumes "- (2 ^ 31) - 64 \<le> z" and "z \<le> 2 ^ 31 + 64"
  shows "\<exists>r. wrapFar z = Some r \<and> r \<le> 10 \<and> - (2 ^ 31) - 64 \<le> r"
  using assms
proof (induction z rule: measure_induct_rule[where f = "\<lambda>z. nat \<lceil>z\<rceil>"])
  case (less z)
  show ?case
  proof (cases "10 < z")
    case False
    then show ?thesis using less.prems by (subst wrapFar.simps) simp
  next
    case True
    define z' where "z' = float32 (z - 100)"
    have "\<bar>z - 100\<bar> < 2 ^ 31" using True less.prems by simp
    from float32_below[OF this] have b: "z - 164 \<le> z'" "z' \<le> z - 36"
      by (simp_all add: z'_def)
    have "nat \<lceil>z'\<rceil> < nat \<lceil>z\<rceil>" using b(2) True by linarith
    moreover have "- (2 ^ 31) - 64 \<le> z'" "z' \<le> 2 ^ 31 + 64" using b True less.prems by simp_all
    ultimately obtain r where "wrapFar z' = Some r" "r \<le> 10" "- (2 ^ 31) - 64 \<le> r"
      using less.IH by blast
    then show ?thesis
      using True by (subst wrapFar.simps) (simp add: segments_length z'_def)
  qed
qed

lemma wrapNear_returns:
  assumes "- (2 ^ 31) - 64 \<le> z" and "z \<le> 10"
  shows "\<exists>r. wrapNear z = Some r \<and> - 100 \<le> r \<and> r \<le> 10"
  using assms
proof (induction z rule: measure_induct_rule[where f = "\<lambda>z. nat \<lceil>- z\<rceil>"])
  case (less z)
  show ?case
  proof (cases "z < - 100")
    case False
    then show ?thesis using less.prems by (subst wrapNear.simps) (simp add: segments_length)
  next
    case True
    define z' where "z' = float32 (z + 100)"
    have "\<bar>z + 100\<bar> < 2 ^ 31" using True less.prems by simp
    from float32_below[OF this] have b: "z + 36 \<le> z'"
      by (simp_all add: z'_def)
    have n: "z' \<le> 0" using float32_sign(1)[of "z + 100"] True by (simp add: z'_def)
    have "nat \<lceil>- z'\<rceil> < nat \<lceil>- z\<rceil>" using b True by linarith
    moreover have "- (2 ^ 31) - 64 \<le> z'" "z' \<le> 10" using b n less.prems by simp_all
    ultimately obtain r where "wrapNear z' = Some r" "- 100 \<le> r" "r \<le> 10"
      using less.IH by blast
    then show ?thesis
      using True by (subst wrapNear.simps) (simp add: segments_length z'_def)
  qed
qed

text \<open>At \<open>2^32\<close> the first loop subtracts 100 and gets \<open>2^32\<close> again: it never ends. The
  second loop does the same at \<open>-2^32\<close>.\<close>

lemma wrapFar_result_not_from_big:
  assumes "wrapFar z = Some r"
  shows "z \<noteq> 4294967296"
proof (rule wrapFar.raw_induct[where P = "\<lambda>x y. x \<noteq> 4294967296", OF _ assms])
  fix f :: "real \<Rightarrow> real option" and x y
  assume IH: "\<And>x y. f x = Some y \<Longrightarrow> x \<noteq> 4294967296"
    and eq: "(if 10 < x
              then f (float32 (x - real_of_int NUM_GROUND_SEGMENTS * GROUND_SEGMENT_LENGTH))
              else Some x) = Some y"
  show "x \<noteq> 4294967296"
  proof
    assume "x = 4294967296"
    then have "f (float32 4294967196) = Some y"
      using eq by (simp add: segments_length)
    then have "f 4294967296 = Some y" by (simp only: float32_big_minus_100)
    from IH[OF this] show False by simp
  qed
qed

lemma wrapFar_never_returns: "wrapFar 4294967296 = None"
  using wrapFar_result_not_from_big[of 4294967296] by (cases "wrapFar 4294967296") auto

lemma float32_big_plus_100: "float32 (- 4294967196) = - 4294967296"
  by code_simp

lemma wrapNear_never_returns: "wrapNear (- 4294967296) = None"
proof -
  have "z \<noteq> - 4294967296" if "wrapNear z = Some r" for z r
  proof (rule wrapNear.raw_induct[where P = "\<lambda>x y. x \<noteq> - 4294967296", OF _ that])
    fix f :: "real \<Rightarrow> real option" and x y
    assume IH: "\<And>x y. f x = Some y \<Longrightarrow> x \<noteq> - 4294967296"
      and eq: "(if x < - real_of_int NUM_GROUND_SEGMENTS * GROUND_SEGMENT_LENGTH
                then f (float32 (x + real_of_int NUM_GROUND_SEGMENTS * GROUND_SEGMENT_LENGTH))
                else Some x) = Some y"
    show "x \<noteq> - 4294967296"
    proof
      assume "x = - 4294967296"
      then have "f (float32 (- 4294967196)) = Some y"
        using eq by (simp add: segments_length)
      then have "f (- 4294967296) = Some y" by (simp only: float32_big_plus_100)
      from IH[OF this] show False by simp
    qed
  qed
  then show ?thesis by (cases "wrapNear (- 4294967296)") auto
qed

text \<open>Just above \<open>2^31\<close> the \<^verbatim>\<open>float\<close> numbers are 256 apart, and the first loop stays at
  \<open>2^31 + 256\<close> as it stays at \<open>2^32\<close>.\<close>

lemma float32_above_pow31: "float32 2147483804 = 2147483904"
  by code_simp

lemma wrapFar_stuck_above_pow31: "wrapFar 2147483904 = None"
proof -
  have "z \<noteq> 2147483904" if "wrapFar z = Some r" for z r
  proof (rule wrapFar.raw_induct[where P = "\<lambda>x y. x \<noteq> 2147483904", OF _ that])
    fix f :: "real \<Rightarrow> real option" and x y
    assume IH: "\<And>x y. f x = Some y \<Longrightarrow> x \<noteq> 2147483904"
      and eq: "(if 10 < x
                then f (float32 (x - real_of_int NUM_GROUND_SEGMENTS * GROUND_SEGMENT_LENGTH))
                else Some x) = Some y"
    show "x \<noteq> 2147483904"
    proof
      assume "x = 2147483904"
      then have "f (float32 2147483804) = Some y"
        using eq by (simp add: segments_length)
      then have "f 2147483904 = Some y" by (simp only: float32_above_pow31)
      from IH[OF this] show False by simp
    qed
  qed
  then show ?thesis by (cases "wrapFar 2147483904") auto
qed

text \<open>
  Claim C7, amended. For every building and every ground offset whose sum
  \<^verbatim>\<open>position.z + groundOffset\<close> has a magnitude of at most \<open>2^31\<close> (2147483648), the wrapping
  step of \<^verbatim>\<open>renderScene\<close> ends, and the Z coordinate at which the building is drawn lies
  between \<open>- (NUM_GROUND_SEGMENTS * GROUND_SEGMENT_LENGTH)\<close>, that is \<open>-100\<close>, and 10.
\<close>

theorem building_wrap_window:
  assumes "\<bar>vec_z (position building) + offset\<bar> \<le> 2 ^ 31"
  shows "\<exists>pos. wrappedPosition building offset = Some pos
           \<and> - (real_of_int NUM_GROUND_SEGMENTS * GROUND_SEGMENT_LENGTH) \<le> vec_z pos
           \<and> vec_z pos \<le> 10
           \<and> - (real_of_int NUM_GROUND_SEGMENTS * GROUND_SEGMENT_LENGTH) = - 100"
proof -
  define z0 where "z0 = float32 (vec_z (position building) + offset)"
  from float32_upto[OF assms] assms have "- (2 ^ 31) - 64 \<le> z0" "z0 \<le> 2 ^ 31 + 64"
    by (simp_all add: z0_def abs_le_iff)
  then obtain z1 where z1: "wrapFar z0 = Some z1" "z1 \<le> 10" "- (2 ^ 31) - 64 \<le> z1"
    using wrapFar_returns by blast
  then obtain z2 where z2: "wrapNear z1 = Some z2" "- 100 \<le> z2" "z2 \<le> 10"
    using wrapNear_returns by blast
  have "wrappedPosition building offset = Some ((position building)\<lparr>vec_z := z2\<rparr>)"
    using z1(1) z2(1) by (simp add: wrappedPosition_def Let_def z0_def)
  then show ?thesis using z2(2,3) by (simp add: segments_length)
qed

text \<open>The theorem for a building at \<open>z = -85\<close> with the ground scrolled by 120.\<close>

theorem building_wrap_window_witness:
  "\<bar>vec_z (position \<lparr>position = \<lparr>vec_x = 13, vec_y = 0, vec_z = - 85\<rparr>,
                           scale = \<lparr>vec_x = 4, vec_y = 6, vec_z = 4\<rparr>,
                           color = \<lparr>vec_x = 1/2, vec_y = 1/2, vec_z = 1/2\<rparr>\<rparr>) + 120\<bar> \<le> 2 ^ 31
   \<and> (\<exists>pos. wrappedPosition \<lparr>position = \<lparr>vec_x = 13, vec_y = 0, vec_z = - 85\<rparr>,
                           scale = \<lparr>vec_x = 4, vec_y = 6, vec_z = 4\<rparr>,
                           color = \<lparr>vec_x = 1/2, vec_y = 1/2, vec_z = 1/2\<rparr>\<rparr> 120 = Some pos
           \<and> - 100 \<le> vec_z pos \<and> vec_z pos \<le> 10)"
  using building_wrap_window [of "\<lparr>position = \<lparr>vec_x = 13, vec_y = 0, vec_z = - 85\<rparr>,
                           scale = \<lparr>vec_x = 4, vec_y = 6, vec_z = 4\<rparr>,
                           color = \<lparr>vec_x = 1/2, vec_y = 1/2, vec_z = 1/2\<rparr>\<rparr>" 120]
  by (simp add: segments_length)

text \<open>
  Claim C7 speaks of every finite ground offset. With a ground offset of \<open>2^32\<close> and a
  building at \<open>z = -10\<close> the sum rounds to \<open>2^32\<close>, the first loop never ends, and no
  wrapped position exists.
\<close>

theorem building_wrap_never_ends:
  "wrappedPosition \<lparr>position = \<lparr>vec_x = 13, vec_y = 0, vec_z = - 10\<rparr>,
                    scale = \<lparr>vec_x = 4, vec_y = 6, vec_z = 4\<rparr>,
                    color = \<lparr>vec_x = 1/2, vec_y = 1/2, vec_z = 1/2\<rparr>\<rparr> 4294967296 = None"
  by (simp add: wrappedPosition_def Let_def float32_big_sum wrapFar_never_returns)

text \<open>The building of the witness is drawn at \<open>z = -65\<close>.\<close>

lemma wrappedPosition_example:
  "wrappedPosition \<lparr>position = \<lparr>vec_x = 13, vec_y = 0, vec_z = - 85\<rparr>,
                    scale = \<lparr>vec_x = 4, vec_y = 6, vec_z = 4\<rparr>,
                    color = \<lparr>vec_x = 1/2, vec_y = 1/2, vec_z = 1/2\<rparr>\<rparr> 120
     = Some \<lparr>vec_x = 13, vec_y = 0, vec_z = - 65\<rparr>"
proof -
  have "wrapNear (- 65) = Some (- 65)"
    by (subst wrapNear.simps) (simp add: segments_length)
  then have "wrapFar 35 = Some (- 65) \<and> wrapNear (- 65) = Some (- 65)"
    by (subst wrapFar.simps) (simp add: segments_length float32_35 wrapFar.simps[of "- 65"])
  then show ?thesis
    by (simp add: wrappedPosition_def Let_def float32_35)
qed

section \<open>The digit texture stays inside its buffer\<close>

text \<open>A value inside the 32-bit range is its own wrapped value.\<close>

lemma wrap32_id:
  assumes "- (2 ^ 31) \<le> v" and "v < 2 ^ 31"
  shows "wrap32 v = v"
  using assms by (simp add: wrap32_def)

lemma andThen_simps [simp]:
  "andThen (Inr data) f = f data"
  "andThen (Inl e) f = Inl e"
  by (simp_all add: andThen_def)

lemma safeOn_Inr: "safeOn n Inr"
  by (simp add: safeOn_def)

lemma safeOn_andThen:
  assumes "safeOn n f" and "safeOn n h"
  shows "safeOn n (\<lambda>data. andThen (f data) h)"
  unfolding safeOn_def
proof (intro allI impI)
  fix data :: pixels
  assume "length data = n"
  then obtain d1 where d1: "f data = Inr d1" "length d1 = n"
    using assms(1) unfolding safeOn_def by blast
  then obtain d2 where "h d1 = Inr d2" "length d2 = n"
    using assms(2) unfolding safeOn_def by blast
  then show "\<exists>data'. andThen (f data) h = Inr data' \<and> length data' = n"
    using d1 by simp
qed

lemma store_safe:
  assumes "0 \<le> idx" and "idx < int n"
  shows "safeOn n (store idx v)"
  using assms by (simp add: safeOn_def store_def)

lemma forEach_safe:
  assumes "\<And>i. i \<in> set xs \<Longrightarrow> safeOn n (body i)"
  shows "safeOn n (forEach xs body)"
  using assms
proof (induction xs)
  case Nil
  then show ?case by (simp add: safeOn_def)
next
  case (Cons i xs)
  have "safeOn n (\<lambda>data. andThen (body i data) (forEach xs body))"
    using Cons by (intro safeOn_andThen) simp_all
  then show ?case by (simp add: safeOn_def)
qed

text \<open>The index arithmetic of \<^verbatim>\<open>setPixel\<close>: a pixel that passes the test has its four
  bytes inside an array of \<open>width * height * 4\<close> bytes, when that size is below \<open>2^31\<close>.\<close>

lemma pixel_index_bound:
  fixes x y width height :: int
  assumes "0 \<le> x" "x < width" "0 \<le> y" "y < height"
  shows "0 \<le> (y * width + x) * 4" and "(y * width + x) * 4 + 3 < width * height * 4"
proof -
  have "0 \<le> y * width" using assms by simp
  then show "0 \<le> (y * width + x) * 4" using assms(1) by simp
  have "(y + 1) * width \<le> height * width"
    using assms by (intro mult_right_mono) simp_all
  then have "y * width + width \<le> width * height"
    by (simp add: algebra_simps)
  then have "y * width + x + 1 \<le> width * height"
    using assms(2) by linarith
  then have "(y * width + x + 1) * 4 \<le> width * height * 4"
    by simp
  then show "(y * width + x) * 4 + 3 < width * height * 4"
    by (simp add: algebra_simps)
qed

lemma setPixel_safe:
  assumes "n = nat (width * height * 4)" and "width * height * 4 < 2 ^ 31"
  shows "safeOn n (setPixel width height x y r g b)"
proof (cases "x \<ge> 0 \<and> x < width \<and> y \<ge> 0 \<and> y < height")
  case True
  define idx where "idx = (y * width + x) * 4"
  have b: "0 \<le> idx" "idx + 3 < width * height * 4"
    using pixel_index_bound[of x width y height] True unfolding idx_def by blast+
  then have i: "0 \<le> idx" "idx + 3 < int n" "idx + 3 < 2 ^ 31"
    using assms by linarith+
  have w: "wrap32 idx = idx" "wrap32 (idx + 1) = idx + 1" "wrap32 (idx + 2) = idx + 2"
    "wrap32 (idx + 3) = idx + 3"
    using i by (simp_all add: wrap32_id)
  have "safeOn n (\<lambda>data. andThen (andThen (andThen (store idx r data) (store (idx + 1) g)) (store (idx + 2) b))
             (store (idx + 3) 255))"
    using i by (intro safeOn_andThen store_safe) simp_all
  then show ?thesis
    using True w by (simp add: setPixel_def Let_def idx_def safeOn_def)
next
  case False
  then show ?thesis by (auto simp: setPixel_def safeOn_def)
qed

text \<open>A pixel that fails the test is dropped: the buffer is returned as it was.\<close>

lemma setPixel_clipped:
  assumes "\<not> (x \<ge> 0 \<and> x < width \<and> y \<ge> 0 \<and> y < height)"
  shows "setPixel width height x y r g b data = Inr data"
  using assms by (auto simp: setPixel_def)

lemma safeOn_if:
  assumes "c \<Longrightarrow> safeOn n f" and "\<not> c \<Longrightarrow> safeOn n h"
  shows "safeOn n (\<lambda>data. if c then f data else h data)"
  using assms by (cases c) (simp_all add: safeOn_def)

lemma drawSegment_safe:
  assumes "n = nat (width * height * 4)" and "width * height * 4 < 2 ^ 31"
  shows "safeOn n (drawSegment width height offsetX seg)"
  unfolding drawSegment_def[abs_def] Let_def
  by (intro safeOn_if forEach_safe setPixel_safe[OF assms] safeOn_Inr)

lemma drawColon_safe:
  assumes "n = nat (width * height * 4)" and "width * height * 4 < 2 ^ 31"
  shows "safeOn n (drawColon width height offsetX)"
  unfolding drawColon_def[abs_def] Let_def
  by (intro forEach_safe safeOn_andThen setPixel_safe[OF assms])

lemma clearBuffer_safe:
  assumes "nbytes = 4 * m" and "n = nat nbytes"
  shows "safeOn n (clearBuffer nbytes)"
  unfolding clearBuffer_def[abs_def]
proof (rule forEach_safe)
  fix i assume "i \<in> set (map (\<lambda>k. 4 * k) [0 .. (nbytes - 1) div 4])"
  then obtain k where k: "i = 4 * k" "0 \<le> k" "k \<le> (nbytes - 1) div 4" by auto
  have "(nbytes - 1) div 4 = m - 1" using assms(1) by simp
  then have i: "0 \<le> i" "i + 3 < int n" using k assms by simp_all
  show "safeOn n (\<lambda>d. andThen (andThen (andThen (store i 0 d) (store (i + 1) 0)) (store (i + 2) 0)) (store (i + 3) 0))"
    using i by (intro safeOn_andThen store_safe) simp_all
qed

lemma drawChar_safe:
  assumes "n = nat (width * height * 4)" and "width * height * 4 < 2 ^ 31"
  shows "safeOn n (drawChar digitStr width height i)"
  unfolding drawChar_def[abs_def] Let_def
  by (intro forEach_safe safeOn_if drawColon_safe[OF assms] drawSegment_safe[OF assms] safeOn_Inr)

text \<open>
  Claim C9, amended. For every input string of at most 357913 characters (the length up
  to which \<^verbatim>\<open>width * height * 4\<close> fits a 32-bit \<^verbatim>\<open>int\<close>), \<^verbatim>\<open>createDigitTexture\<close> runs to
  its end without a write outside the allocated \<open>width * height * 4\<close> bytes: every pixel
  is written by \<^verbatim>\<open>setPixel\<close>, whose bounds test keeps the four byte indices inside the
  buffer and drops the pixel otherwise, and the clearing loop stays inside the buffer too.
  The result is the pixel buffer, of the size that was allocated.
\<close>

theorem createDigitTexture_in_bounds:
  assumes "length digitStr \<le> 357913"
  shows "\<exists>data. createDigitTexture digitStr = Inr data
      \<and> int (length data) = charWidth * int (length digitStr) * charHeight * 4"
proof -
  define len where "len = int (length digitStr)"
  define width where "width = charWidth * len"
  define nbytes where "nbytes = width * charHeight * 4"
  define n where "n = nat nbytes"
  have l: "0 \<le> len" "len \<le> 357913" using assms by (simp_all add: len_def)
  then have r: "0 \<le> width" "width < 2 ^ 31" "0 \<le> nbytes" "nbytes < 2 ^ 31" "nbytes = 4 * (width * charHeight)"
    by (simp_all add: nbytes_def width_def charWidth_def charHeight_def)
  have w: "wrap32 (int (length digitStr)) = len" "wrap32 (charWidth * len) = width"
    "wrap32 (width * charHeight * 4) = nbytes"
    using l r by (simp_all add: wrap32_id len_def[symmetric] width_def[symmetric] nbytes_def[symmetric])
  have n': "n = nat (width * charHeight * 4)" by (simp add: n_def nbytes_def)
  have b: "width * charHeight * 4 < 2 ^ 31" using r(4) by (simp add: nbytes_def)
  have "safeOn n (\<lambda>data. andThen (clearBuffer nbytes data) (forEach [0 .. len - 1] (drawChar digitStr width charHeight)))"
    by (intro safeOn_andThen clearBuffer_safe[OF r(5) n_def] forEach_safe drawChar_safe[OF n' b])
  moreover have "createDigitTexture digitStr
      = andThen (clearBuffer nbytes (replicate n 0)) (forEach [0 .. len - 1] (drawChar digitStr width charHeight))"
    unfolding createDigitTexture_def Let_def w n_def using r(3) by simp
  ultimately obtain data where "createDigitTexture digitStr = Inr data" "length data = n"
    unfolding safeOn_def by (metis length_replicate)
  moreover have "int n = charWidth * int (length digitStr) * charHeight * 4"
    using r(3) by (simp add: n_def nbytes_def width_def len_def)
  ultimately show ?thesis by auto
qed

text \<open>The theorem for a clock string of eight characters.\<close>

theorem createDigitTexture_in_bounds_witness:
  "length ''12:34:56'' \<le> 357913
   \<and> (\<exists>data. createDigitTexture ''12:34:56'' = Inr data \<and> int (length data) = 48000)"
  using createDigitTexture_in_bounds [of "''12:34:56''"]
  by (simp add: charWidth_def charHeight_def)

text \<open>A loop whose first round faults, and a string whose first character faults.\<close>

lemma forEach_upto_fault:
  assumes "i \<le> j" and "body i data = Inl e"
  shows "forEach [i .. j] body data = Inl e"
proof -
  have "[i .. j] = i # [i + 1 .. j]" using assms(1) by (rule upto_rec1)
  then show ?thesis using assms(2) by simp
qed

lemma createDigitTexture_first_char_faults:
  assumes "wrap32 (int (length digitStr)) = len" and "wrap32 (charWidth * len) = width"
    and "wrap32 (width * charHeight * 4) = nbytes" and "nbytes = 4 * m" and "0 \<le> nbytes" and "0 < len"
    and "\<And>data. drawChar digitStr width charHeight 0 data = Inl e"
  shows "createDigitTexture digitStr = Inl e"
proof -
  obtain d where d: "clearBuffer nbytes (replicate (nat nbytes) 0) = Inr d"
    using clearBuffer_safe[OF assms(4) refl] unfolding safeOn_def by (metis length_replicate)
  have "forEach [0 .. len - 1] (drawChar digitStr width charHeight) d = Inl e"
    using assms(6,7) by (intro forEach_upto_fault) simp_all
  then show ?thesis
    unfolding createDigitTexture_def Let_def assms(1-3) using assms(5) d by simp
qed

text \<open>
  Claim C9 speaks of every input string. For a string of 715828 zeros the width is
  21474840 and \<^verbatim>\<open>width * height * 4\<close> is 4294968000, which wraps to 704: the buffer has
  704 bytes. The first pixel of the first segment, at \<open>x = 3\<close> and \<open>y = 47\<close>, passes the
  bounds test of \<^verbatim>\<open>setPixel\<close>, since the test compares with \<open>width\<close> and \<open>height\<close>; its
  index \<open>(47 * 21474840 + 3) * 4\<close> wraps to \<open>-257697364\<close>, and the write is outside the
  buffer.
\<close>

lemma setPixel_wrapped_index:
  "setPixel 21474840 50 3 47 200 230 255 data = Inl OutOfBounds"
  by (simp add: setPixel_def wrap32_def store_def Let_def)

lemma drawSegment_top_faults:
  "drawSegment 21474840 50 0 0 data = Inl OutOfBounds"
proof -
  have row: "forEach [3 .. 26] (\<lambda>x. setPixel 21474840 50 (wrap32 (0 + x)) (50 - 3 - 0) 200 230 255) data
          = Inl OutOfBounds"
    by (rule forEach_upto_fault) (simp_all add: wrap32_def setPixel_wrapped_index)
  have "forEach [0 .. 3] (\<lambda>t. forEach [3 .. 26] (\<lambda>x.
               setPixel 21474840 50 (wrap32 (0 + x)) (50 - 3 - t) 200 230 255)) data = Inl OutOfBounds"
  proof (rule forEach_upto_fault)
    show "(0 :: int) \<le> 3" by simp
    show "forEach [3 .. 26] (\<lambda>x. setPixel 21474840 50 (wrap32 (0 + x)) (50 - 3 - 0) 200 230 255) data
          = Inl OutOfBounds"
      by (rule row)
  qed
  then show ?thesis
    by (simp add: drawSegment_def charWidth_def del: upto_rec_numeral)
qed

lemma drawChar_first_zero_faults:
  "drawChar (replicate 715828 CHR ''0'') 21474840 50 0 data = Inl OutOfBounds"
proof -
  have "forEach [0 .. 6] (\<lambda>s d. if segments ! 0 ! nat s then drawSegment 21474840 50 0 s d else Inr d) data
          = Inl OutOfBounds"
    by (rule forEach_upto_fault) (simp_all add: segments_def drawSegment_top_faults)
  then show ?thesis
    by (simp add: drawChar_def wrap32_def del: upto_rec_numeral)
qed

theorem createDigitTexture_long_string_faults:
  "createDigitTexture (replicate 715828 CHR ''0'') = Inl OutOfBounds"
proof (rule createDigitTexture_first_char_faults)
  show "wrap32 (int (length (replicate 715828 CHR ''0''))) = 715828"
    by (simp add: wrap32_def)
  show "wrap32 (charWidth * 715828) = 21474840"
    by (simp add: wrap32_def charWidth_def)
  show "wrap32 (21474840 * charHeight * 4) = 704"
    by (simp add: wrap32_def charHeight_def)
  show "(704 :: int) = 4 * 176" by simp
  show "(0 :: int) \<le> 704" by simp
  show "(0 :: int) < 715828" by simp
  show "drawChar (replicate 715828 CHR ''0'') 21474840 charHeight 0 data = Inl OutOfBounds" for data
    by (simp only: charHeight_def drawChar_first_zero_faults)
qed

text \<open>From 357914 characters on the size no longer fits: there it wraps to a negative
  number and the allocation fails.\<close>

lemma createDigitTexture_size_overflow:
  "createDigitTexture (replicate 357914 CHR ''0'') = Inl BadArrayNewLength"
  by (simp add: createDigitTexture_def Let_def wrap32_def charWidth_def charHeight_def
        del: upto_rec_numeral)

end
